theory Spec2Isabelle
  imports Complex_Main "HOL-Library.Word"
begin

section \<open>Weighted round robin: a shallow embedding\<close>

text \<open>
  The development follows
  \<^verbatim>\<open>src/core/load_balancing/weighted_round_robin/weighted_round_robin.cc\<close>.
  Each source function becomes a HOL function of the same name. Objects mutated in place
  are passed in and returned; trace logging, the counters of \<^verbatim>\<open>global_stats()\<close>
  and the metrics sent to the stats plugins are left out. The C++ types \<^verbatim>\<open>float\<close> and
  \<^verbatim>\<open>double\<close> are the IEEE 754 formats binary32 and binary64, with rounding,
  infinities and NaN. The counters \<^verbatim>\<open>uint64_t\<close> and \<^verbatim>\<open>size_t\<close> that can wrap are
  64-bit words.
\<close>

subsection \<open>Time\<close>

text \<open>
  Modelled from the spec: \<^verbatim>\<open>Timestamp\<close> and \<^verbatim>\<open>Duration\<close> of
  \<^verbatim>\<open>src/core/util/time.h\<close>, which is not among the sources. The spec speaks of
  timestamps that are a point in time or \<open>+\<infinity>\<close>, and of differences
  \<open>now - t\<close> compared with durations. A timestamp is a number of milliseconds or
  \<^verbatim>\<open>InfFuture\<close>; a duration is a number of milliseconds or one of the two
  infinities; a finite time minus \<^verbatim>\<open>InfFuture\<close> is the negative infinity. The
  spec leaves \<open>\<infinity> - \<infinity>\<close> open; the model takes the positive infinity.
\<close>

datatype Timestamp = Millis int | InfFuture

datatype Duration = NegativeInfinity | Milliseconds int | Infinity

definition Duration_Zero :: Duration where
  "Duration_Zero = Milliseconds 0"

fun Timestamp_minus :: "Timestamp \<Rightarrow> Timestamp \<Rightarrow> Duration" where
  "Timestamp_minus (Millis a) (Millis b) = Milliseconds (a - b)"
| "Timestamp_minus (Millis a) InfFuture = NegativeInfinity"
| "Timestamp_minus InfFuture t = Infinity"

instantiation Duration :: linorder
begin

fun less_eq_Duration :: "Duration \<Rightarrow> Duration \<Rightarrow> bool" where
  "less_eq_Duration NegativeInfinity d = True"
| "less_eq_Duration (Milliseconds a) NegativeInfinity = False"
| "less_eq_Duration (Milliseconds a) (Milliseconds b) = (a \<le> b)"
| "less_eq_Duration (Milliseconds a) Infinity = True"
| "less_eq_Duration Infinity Infinity = True"
| "less_eq_Duration Infinity d = False"

definition less_Duration :: "Duration \<Rightarrow> Duration \<Rightarrow> bool" where
  "less_Duration a b = (a \<le> b \<and> \<not> b \<le> a)"

instance
proof
  fix x y z :: Duration
  show "(x < y) = (x \<le> y \<and> \<not> y \<le> x)"
    by (simp add: less_Duration_def)
  show "x \<le> x"
    by (cases x) simp_all
  show "x \<le> y \<Longrightarrow> y \<le> z \<Longrightarrow> x \<le> z"
    by (cases x; cases y; cases z) simp_all
  show "x \<le> y \<Longrightarrow> y \<le> x \<Longrightarrow> x = y"
    by (cases x; cases y) simp_all
  show "x \<le> y \<or> y \<le> x"
    by (cases x; cases y) auto
qed

end

instantiation Timestamp :: linorder
begin

fun less_eq_Timestamp :: "Timestamp \<Rightarrow> Timestamp \<Rightarrow> bool" where
  "less_eq_Timestamp (Millis a) (Millis b) = (a \<le> b)"
| "less_eq_Timestamp t InfFuture = True"
| "less_eq_Timestamp InfFuture (Millis b) = False"

definition less_Timestamp :: "Timestamp \<Rightarrow> Timestamp \<Rightarrow> bool" where
  "less_Timestamp a b = (a \<le> b \<and> \<not> b \<le> a)"

instance
proof
  fix x y z :: Timestamp
  show "(x < y) = (x \<le> y \<and> \<not> y \<le> x)"
    by (simp add: less_Timestamp_def)
  show "x \<le> x"
    by (cases x) simp_all
  show "x \<le> y \<Longrightarrow> y \<le> z \<Longrightarrow> x \<le> z"
    by (cases x; cases y; cases z) simp_all
  show "x \<le> y \<Longrightarrow> y \<le> x \<Longrightarrow> x = y"
    by (cases x; cases y) simp_all
  show "x \<le> y \<or> y \<le> x"
    by (cases x; cases y) auto
qed

end

subsection \<open>Floating point\<close>

text \<open>
  A value of type \<^verbatim>\<open>float\<close> or \<^verbatim>\<open>double\<close>: a real number, an infinity or
  NaN. Every operation is evaluated in the format of its type and rounded to the nearest
  value of the format, ties to even. The sign of zero is not modelled: zero stands for
  \<open>+0\<close>, which is the only zero that the operations below produce from the operands
  the code gives them.
\<close>

datatype fp = Finite real | PlusInf | MinusInf | NaN

definition pow2 :: "int \<Rightarrow> real" where
  "pow2 e = (if 0 \<le> e then 2 ^ nat e else 1 / 2 ^ nat (- e))"

text \<open>Rounding to the nearest integer, ties to even.\<close>

definition round_even :: "real \<Rightarrow> int" where
  "round_even y =
     (if y - of_int \<lfloor>y\<rfloor> < 1 / 2 then \<lfloor>y\<rfloor>
      else if 1 / 2 < y - of_int \<lfloor>y\<rfloor> then \<lfloor>y\<rfloor> + 1
      else if even \<lfloor>y\<rfloor> then \<lfloor>y\<rfloor> else \<lfloor>y\<rfloor> + 1)"

text \<open>
  The binary exponent of \<open>x\<close> in a format with largest exponent \<open>emax\<close>: the
  \<open>k\<close> with \<open>2\<^sup>k \<le> \<bar>x\<bar> < 2\<^sup>k\<^sup>+\<^sup>1\<close>, but not below the smallest exponent
  \<open>1 - emax\<close> (that of the subnormal numbers) and not above \<open>emax + 1\<close>. It is
  found by a search upwards from the smallest exponent.
\<close>

fun find_exponent :: "nat \<Rightarrow> int \<Rightarrow> real \<Rightarrow> int" where
  "find_exponent 0 k x = k"
| "find_exponent (Suc n) k x =
     (if pow2 (k + 1) \<le> \<bar>x\<bar> then find_exponent n (k + 1) x else k)"

definition binary_exponent :: "int \<Rightarrow> real \<Rightarrow> int" where
  "binary_exponent emax x = find_exponent (nat (2 * emax)) (1 - emax) x"

text \<open>
  Rounding of a real number \<open>x\<close> with binary exponent \<open>k\<close> to the format of
  precision \<open>p\<close> and largest exponent \<open>emax\<close>: to the nearest multiple of the
  spacing \<open>2\<^sup>k\<^sup>-\<^sup>p\<^sup>+\<^sup>1\<close>, ties to even, and to an infinity when the rounded value is
  beyond the largest finite number.
\<close>

definition fp_round_at :: "nat \<Rightarrow> int \<Rightarrow> int \<Rightarrow> real \<Rightarrow> fp" where
  "fp_round_at p emax k x =
     (let q = pow2 (k - int p + 1);
          r = of_int (round_even (x / q)) * q
      in if pow2 (emax + 1) \<le> \<bar>r\<bar> then (if 0 < x then PlusInf else MinusInf)
         else Finite r)"

definition fp_round :: "nat \<Rightarrow> int \<Rightarrow> real \<Rightarrow> fp" where
  "fp_round p emax x = fp_round_at p emax (binary_exponent emax x) x"

definition round_double :: "real \<Rightarrow> fp" where
  "round_double = fp_round 53 1023"

definition round_float :: "real \<Rightarrow> fp" where
  "round_float = fp_round 24 127"

text \<open>
  The conversion of a \<^verbatim>\<open>double\<close> to \<^verbatim>\<open>float\<close> (the assignment of line 446).
  The conversion of a \<^verbatim>\<open>float\<close> to \<^verbatim>\<open>double\<close> is exact and is not written.
\<close>

fun float_of_double :: "fp \<Rightarrow> fp" where
  "float_of_double (Finite a) = round_float a"
| "float_of_double x = x"

text \<open>The comparisons \<^verbatim>\<open>x > 0\<close> and \<^verbatim>\<open>x == 0\<close>, both false of NaN, and \<^verbatim>\<open>x >= 0\<close>.\<close>

fun fp_gt0 :: "fp \<Rightarrow> bool" where
  "fp_gt0 (Finite a) = (0 < a)"
| "fp_gt0 PlusInf = True"
| "fp_gt0 x = False"

fun fp_eq0 :: "fp \<Rightarrow> bool" where
  "fp_eq0 (Finite a) = (a = 0)"
| "fp_eq0 x = False"

fun fp_ge0 :: "fp \<Rightarrow> bool" where
  "fp_ge0 (Finite a) = (0 \<le> a)"
| "fp_ge0 PlusInf = True"
| "fp_ge0 x = False"

text \<open>A value that is not negative: NaN, or a value with \<^verbatim>\<open>x >= 0\<close>.\<close>

definition fp_not_negative :: "fp \<Rightarrow> bool" where
  "fp_not_negative x \<longleftrightarrow> fp_ge0 x \<or> x = NaN"

text \<open>The sign of a value (true for \<open>+\<close>) and the infinity of a sign.\<close>

fun fp_positive :: "fp \<Rightarrow> bool" where
  "fp_positive (Finite a) = (0 \<le> a)"
| "fp_positive MinusInf = False"
| "fp_positive x = True"

definition fp_inf :: "bool \<Rightarrow> fp" where
  "fp_inf positive = (if positive then PlusInf else MinusInf)"

text \<open>Addition, multiplication and division of \<^verbatim>\<open>double\<close> values.\<close>

fun double_add :: "fp \<Rightarrow> fp \<Rightarrow> fp" where
  "double_add NaN y = NaN"
| "double_add x NaN = NaN"
| "double_add (Finite a) (Finite b) = round_double (a + b)"
| "double_add PlusInf MinusInf = NaN"
| "double_add MinusInf PlusInf = NaN"
| "double_add (Finite a) y = y"
| "double_add x y = x"

fun double_mul :: "fp \<Rightarrow> fp \<Rightarrow> fp" where
  "double_mul NaN y = NaN"
| "double_mul x NaN = NaN"
| "double_mul (Finite a) (Finite b) = round_double (a * b)"
| "double_mul (Finite a) y =
     (if a = 0 then NaN else fp_inf (fp_positive (Finite a) = fp_positive y))"
| "double_mul x (Finite b) =
     (if b = 0 then NaN else fp_inf (fp_positive x = fp_positive (Finite b)))"
| "double_mul x y = fp_inf (fp_positive x = fp_positive y)"

fun double_div :: "fp \<Rightarrow> fp \<Rightarrow> fp" where
  "double_div NaN y = NaN"
| "double_div x NaN = NaN"
| "double_div (Finite a) (Finite b) =
     (if b = 0 then (if a = 0 then NaN else fp_inf (0 < a)) else round_double (a / b))"
| "double_div (Finite a) y = Finite 0"
| "double_div x (Finite b) = fp_inf (fp_positive x = fp_positive (Finite b))"
| "double_div x y = NaN"

subsection \<open>EndpointWeight\<close>

text \<open>
  The three fields guarded by \<^verbatim>\<open>mu_\<close>, with their default member initialisers
  (lines 224-226). Every method body runs under the mutex, so a method is one atomic step
  on the record.
\<close>

record EndpointWeight =
  weight :: fp
  non_empty_since :: Timestamp
  last_update_time :: Timestamp

definition EndpointWeight_init :: EndpointWeight where
  "EndpointWeight_init =
     \<lparr>weight = Finite 0, non_empty_since = InfFuture, last_update_time = InfFuture\<rparr>"

text \<open>
  The local variable \<^verbatim>\<open>weight\<close> of \<^verbatim>\<open>MaybeUpdateWeight\<close> (lines 440-447):
  the quotient is computed in \<^verbatim>\<open>double\<close> and assigned to a \<^verbatim>\<open>float\<close>. The
  first three arguments are \<^verbatim>\<open>double\<close> values, the fourth is a \<^verbatim>\<open>float\<close>.
\<close>

definition MaybeUpdateWeight_weight :: "fp \<Rightarrow> fp \<Rightarrow> fp \<Rightarrow> fp \<Rightarrow> fp" where
  "MaybeUpdateWeight_weight qps eps utilization error_utilization_penalty =
     (if fp_gt0 qps \<and> fp_gt0 utilization then
        (let penalty =
               (if fp_gt0 eps \<and> fp_gt0 error_utilization_penalty
                then double_mul (double_div eps qps) error_utilization_penalty
                else Finite 0)
         in float_of_double (double_div qps (double_add utilization penalty)))
      else Finite 0)"

text \<open>
  \<^verbatim>\<open>MaybeUpdateWeight\<close> (lines 436-470). The first argument is the value that
  \<^verbatim>\<open>Timestamp::Now()\<close> returns at line 456, before the mutex is taken.
\<close>

definition MaybeUpdateWeight ::
  "Timestamp \<Rightarrow> fp \<Rightarrow> fp \<Rightarrow> fp \<Rightarrow> fp \<Rightarrow> EndpointWeight \<Rightarrow> EndpointWeight" where
  "MaybeUpdateWeight now qps eps utilization error_utilization_penalty ew =
     (let w = MaybeUpdateWeight_weight qps eps utilization error_utilization_penalty in
      if fp_eq0 w then ew
      else
        (let ew1 = (if non_empty_since ew = InfFuture
                    then ew\<lparr>non_empty_since := now\<rparr> else ew)
         in ew1\<lparr>weight := w, last_update_time := now\<rparr>))"

text \<open>
  \<^verbatim>\<open>GetWeight\<close> (lines 472-500). The two out-parameters are passed in and
  returned: the result is the returned weight, the object, \<^verbatim>\<open>*num_not_yet_usable\<close>
  and \<^verbatim>\<open>*num_stale\<close>.
\<close>

definition GetWeight ::
  "Timestamp \<Rightarrow> Duration \<Rightarrow> Duration \<Rightarrow> 64 word \<Rightarrow> 64 word \<Rightarrow> EndpointWeight
     \<Rightarrow> fp \<times> EndpointWeight \<times> 64 word \<times> 64 word" where
  "GetWeight now weight_expiration_period blackout_period num_not_yet_usable num_stale ew =
     (if Timestamp_minus now (last_update_time ew) \<ge> weight_expiration_period then
        (Finite 0, ew\<lparr>non_empty_since := InfFuture\<rparr>, num_not_yet_usable, num_stale + 1)
      else if blackout_period > Duration_Zero
              \<and> Timestamp_minus now (non_empty_since ew) < blackout_period then
        (Finite 0, ew, num_not_yet_usable + 1, num_stale)
      else
        (weight ew, ew, num_not_yet_usable, num_stale))"

text \<open>\<^verbatim>\<open>ResetNonEmptySince\<close> (lines 502-505).\<close>

definition ResetNonEmptySince :: "EndpointWeight \<Rightarrow> EndpointWeight" where
  "ResetNonEmptySince ew = ew\<lparr>non_empty_since := InfFuture\<rparr>"

text \<open>
  A call on an \<^verbatim>\<open>EndpointWeight\<close>, with the clock reading of
  \<^verbatim>\<open>MaybeUpdateWeight\<close> made explicit, and the object after a sequence of calls
  (the counters of \<^verbatim>\<open>GetWeight\<close> belong to the caller and are dropped here).
\<close>

datatype EndpointWeight_call =
    Call_MaybeUpdateWeight Timestamp fp fp fp fp
  | Call_GetWeight Timestamp Duration Duration
  | Call_ResetNonEmptySince

fun EndpointWeight_step :: "EndpointWeight_call \<Rightarrow> EndpointWeight \<Rightarrow> EndpointWeight" where
  "EndpointWeight_step (Call_MaybeUpdateWeight now qps eps u p) ew =
     MaybeUpdateWeight now qps eps u p ew"
| "EndpointWeight_step (Call_GetWeight now e b) ew = fst (snd (GetWeight now e b 0 0 ew))"
| "EndpointWeight_step Call_ResetNonEmptySince ew = ResetNonEmptySince ew"

fun EndpointWeight_run :: "EndpointWeight_call list \<Rightarrow> EndpointWeight \<Rightarrow> EndpointWeight" where
  "EndpointWeight_run [] ew = ew"
| "EndpointWeight_run (c # cs) ew = EndpointWeight_run cs (EndpointWeight_step c ew)"

text \<open>The clock readings of the \<^verbatim>\<open>MaybeUpdateWeight\<close> calls of a sequence, in order.\<close>

fun update_times :: "EndpointWeight_call list \<Rightarrow> Timestamp list" where
  "update_times [] = []"
| "update_times (Call_MaybeUpdateWeight now qps eps u p # cs) = now # update_times cs"
| "update_times (c # cs) = update_times cs"


text \<open>
  The invariant carried along a sequence of calls whose remaining clock readings are
  \<open>ts\<close>: \<^verbatim>\<open>non_empty_since_\<close> is \<^verbatim>\<open>InfFuture\<close>, or it is not after
  \<^verbatim>\<open>last_update_time_\<close> and no later reading is before \<^verbatim>\<open>last_update_time_\<close>.
\<close>

definition EndpointWeight_inv :: "EndpointWeight \<Rightarrow> Timestamp list \<Rightarrow> bool" where
  "EndpointWeight_inv ew ts \<longleftrightarrow>
     non_empty_since ew = InfFuture
     \<or> (non_empty_since ew \<le> last_update_time ew
        \<and> (\<forall>t \<in> set ts. last_update_time ew \<le> t))"

text \<open>
  The invariant in the words of the spec: \<open>weight \<ge> 0\<close>, and if \<open>weight > 0\<close> then
  \<open>non_empty_since \<le> last_update_time\<close>.
\<close>

definition spec_invariant :: "EndpointWeight \<Rightarrow> bool" where
  "spec_invariant ew \<longleftrightarrow>
     fp_ge0 (weight ew)
     \<and> (fp_gt0 (weight ew) \<longrightarrow> non_empty_since ew \<le> last_update_time ew)"

subsection \<open>Configuration, status values, connectivity states\<close>

text \<open>\<^verbatim>\<open>WeightedRoundRobinConfig\<close> (lines 131-189), with its defaults.\<close>

record WeightedRoundRobinConfig =
  enable_oob_load_report :: bool
  oob_reporting_period :: Duration
  blackout_period :: Duration
  weight_update_period :: Duration
  weight_expiration_period :: Duration
  error_utilization_penalty :: fp

definition WeightedRoundRobinConfig_default :: WeightedRoundRobinConfig where
  "WeightedRoundRobinConfig_default =
     \<lparr>enable_oob_load_report = False,
      oob_reporting_period = Milliseconds 10000,
      blackout_period = Milliseconds 10000,
      weight_update_period = Milliseconds 1000,
      weight_expiration_period = Milliseconds 180000,
      error_utilization_penalty = Finite 1\<rparr>"

text \<open>
  \<^verbatim>\<open>absl::Status\<close> of the Abseil library: a code and a message.
  \<^verbatim>\<open>ToString\<close> prints \<^verbatim>\<open>OK\<close>, or the code's name, a colon and the message
  (payloads are not modelled).
\<close>

datatype StatusCode =
    kOk | kCancelled | kUnknown | kInvalidArgument | kDeadlineExceeded | kNotFound
  | kAlreadyExists | kPermissionDenied | kResourceExhausted | kFailedPrecondition
  | kAborted | kOutOfRange | kUnimplemented | kInternal | kUnavailable | kDataLoss
  | kUnauthenticated

datatype Status = Status (status_code: StatusCode) (status_message: string)

definition ok :: "Status \<Rightarrow> bool" where
  "ok st = (status_code st = kOk)"

definition OkStatus :: Status where
  "OkStatus = Status kOk []"

definition UnavailableError :: "string \<Rightarrow> Status" where
  "UnavailableError m = Status kUnavailable m"

fun StatusCodeToString :: "StatusCode \<Rightarrow> string" where
  "StatusCodeToString kOk = ''OK''"
| "StatusCodeToString kCancelled = ''CANCELLED''"
| "StatusCodeToString kUnknown = ''UNKNOWN''"
| "StatusCodeToString kInvalidArgument = ''INVALID_ARGUMENT''"
| "StatusCodeToString kDeadlineExceeded = ''DEADLINE_EXCEEDED''"
| "StatusCodeToString kNotFound = ''NOT_FOUND''"
| "StatusCodeToString kAlreadyExists = ''ALREADY_EXISTS''"
| "StatusCodeToString kPermissionDenied = ''PERMISSION_DENIED''"
| "StatusCodeToString kResourceExhausted = ''RESOURCE_EXHAUSTED''"
| "StatusCodeToString kFailedPrecondition = ''FAILED_PRECONDITION''"
| "StatusCodeToString kAborted = ''ABORTED''"
| "StatusCodeToString kOutOfRange = ''OUT_OF_RANGE''"
| "StatusCodeToString kUnimplemented = ''UNIMPLEMENTED''"
| "StatusCodeToString kInternal = ''INTERNAL''"
| "StatusCodeToString kUnavailable = ''UNAVAILABLE''"
| "StatusCodeToString kDataLoss = ''DATA_LOSS''"
| "StatusCodeToString kUnauthenticated = ''UNAUTHENTICATED''"

definition Status_ToString :: "Status \<Rightarrow> string" where
  "Status_ToString st =
     (if ok st then ''OK''
      else StatusCodeToString (status_code st) @ '': '' @ status_message st)"

text \<open>\<^verbatim>\<open>absl::StrJoin\<close> over strings.\<close>

fun StrJoin :: "string list \<Rightarrow> string \<Rightarrow> string" where
  "StrJoin [] sep = []"
| "StrJoin [x] sep = x"
| "StrJoin (x # y # ys) sep = x @ sep @ StrJoin (y # ys) sep"

datatype grpc_connectivity_state =
    GRPC_CHANNEL_IDLE
  | GRPC_CHANNEL_CONNECTING
  | GRPC_CHANNEL_READY
  | GRPC_CHANNEL_TRANSIENT_FAILURE
  | GRPC_CHANNEL_SHUTDOWN

text \<open>
  What stops the program: a failed \<^verbatim>\<open>CHECK\<close>, a null pointer dereferenced, and
  the remainder by zero of \<^verbatim>\<open>PickIndex\<close> on an empty snapshot.
\<close>

datatype error = CheckFailed | NullPointer | DivisionByZero

subsection \<open>Endpoints, endpoint lists, pickers and the policy\<close>

text \<open>
  Objects that are shared or compared by address live in two heaps of the policy state:
  the \<^verbatim>\<open>EndpointWeight\<close> objects (held through \<^verbatim>\<open>RefCountedPtr\<close> by
  endpoints, pickers and call trackers) and the \<^verbatim>\<open>WrrEndpointList\<close> objects
  (\<^verbatim>\<open>endpoint_list_\<close> and \<^verbatim>\<open>latest_pending_endpoint_list_\<close> are compared
  with \<^verbatim>\<open>this\<close>). An address is a natural number; a reference-counted pointer is
  always valid, an \<^verbatim>\<open>OrphanablePtr\<close> may be null (\<open>None\<close>). Child pickers and
  subchannels are opaque identifiers. The fields \<^verbatim>\<open>connectivity_state_\<close> and
  \<^verbatim>\<open>picker_\<close> of an endpoint belong to the base class \<^verbatim>\<open>EndpointList::Endpoint\<close>,
  which records them before it calls \<^verbatim>\<open>OnStateUpdate\<close>.
\<close>

record WrrEndpoint =
  connectivity_state :: "grpc_connectivity_state option"
  picker :: "nat option"
  endpoint_weight :: nat

record WrrEndpointList =
  endpoints :: "WrrEndpoint list"
  resolution_note :: string
  num_ready :: nat
  num_connecting :: nat
  num_transient_failure :: nat
  last_failure :: Status

definition EndpointList_size :: "WrrEndpointList \<Rightarrow> nat" where
  "EndpointList_size l = length (endpoints l)"

text \<open>
  Modelled from the spec: \<^verbatim>\<open>EndpointList::AllEndpointsSeenInitialState\<close> of the
  base class, whose source is not among the files: every endpoint of the list has
  delivered at least one state notification.
\<close>

definition AllEndpointsSeenInitialState :: "WrrEndpointList \<Rightarrow> bool" where
  "AllEndpointsSeenInitialState l =
     list_all (\<lambda>ep. connectivity_state ep \<noteq> None) (endpoints l)"

text \<open>
  \<^verbatim>\<open>StaticStrideScheduler\<close>, whose source is not among the files, is a type
  parameter \<open>'s\<close>; \<^verbatim>\<open>StaticStrideScheduler::Make\<close> and \<^verbatim>\<open>Pick\<close> are
  parameters of the functions that call them.
\<close>

record EndpointInfo =
  info_picker :: "nat option"
  info_weight :: nat

text \<open>
  The \<^verbatim>\<open>Picker\<close> object (lines 378-391), without its timer handle: timers are not
  modelled.
\<close>

record 's Picker =
  picker_config :: WeightedRoundRobinConfig
  picker_endpoints :: "EndpointInfo list"
  scheduler :: "'s option"
  last_picked_index :: "64 word"

datatype 's SubchannelPicker =
    WrrPicker "'s Picker"
  | QueuePicker
  | TransientFailurePicker Status

text \<open>
  The calls that a control-plane operation makes on other objects, in order: on the child
  policy, on the endpoint's \<^verbatim>\<open>EndpointWeight\<close>, and on the channel control helper
  (which publishes the state).
\<close>

datatype 's call =
    ExitIdleLocked nat
  | Invoke_ResetNonEmptySince nat
  | UpdateState grpc_connectivity_state Status "'s SubchannelPicker"

text \<open>
  What an operation takes from outside the file: the value of \<^verbatim>\<open>Timestamp::Now()\<close>,
  the value drawn by \<^verbatim>\<open>absl::Uniform\<close>, \<^verbatim>\<open>StaticStrideScheduler::Make\<close>
  on a weight vector, whether \<^verbatim>\<open>RefIfNonZero\<close> on the weight object at an
  address returns a reference (it returns null between the last release of the object
  and the run of its destructor), the status of \<^verbatim>\<open>Endpoint::Init\<close> for the child
  of an endpoint, and \<^verbatim>\<open>EndpointAddresses::ToString\<close>.
\<close>

record EndpointAddresses =
  addresses :: "nat list"
  channel_args :: nat

record 's env =
  env_Now :: Timestamp
  env_Uniform :: "64 word"
  env_Make :: "fp list \<Rightarrow> 's option"
  env_RefIfNonZero :: "nat \<Rightarrow> bool"
  env_Init :: "EndpointAddresses \<Rightarrow> Status"
  env_ToString :: "EndpointAddresses \<Rightarrow> string"

text \<open>
  The policy (lines 401-421) with the two heaps. \<^verbatim>\<open>weight_alloc\<close> and
  \<^verbatim>\<open>list_alloc\<close> are the next unused addresses. The reference counts of the
  weight objects are held by endpoints, pickers, watchers and call trackers, whose
  lifetimes are outside the file.
\<close>

record WeightedRoundRobin =
  config :: WeightedRoundRobinConfig
  endpoint_list :: "nat option"
  latest_pending_endpoint_list :: "nat option"
  list_heap :: "nat \<Rightarrow> WrrEndpointList"
  weight_heap :: "nat \<Rightarrow> EndpointWeight"
  endpoint_weight_map :: "nat list \<rightharpoonup> nat"
  weight_alloc :: nat
  list_alloc :: nat
  shutdown :: bool
  scheduler_state :: "32 word"


subsection \<open>Picker\<close>

text \<open>
  The loop of \<^verbatim>\<open>BuildSchedulerAndStartTimerLocked\<close> (lines 618-626): one
  \<^verbatim>\<open>GetWeight\<close> per snapshot endpoint, in order, on the shared weight objects. The
  result is the vector \<^verbatim>\<open>weights\<close>, the weight heap and the two counters.
\<close>

fun GetWeights ::
  "Timestamp \<Rightarrow> Duration \<Rightarrow> Duration \<Rightarrow> EndpointInfo list \<Rightarrow> (nat \<Rightarrow> EndpointWeight)
     \<Rightarrow> 64 word \<Rightarrow> 64 word \<Rightarrow> fp list \<times> (nat \<Rightarrow> EndpointWeight) \<times> 64 word \<times> 64 word" where
  "GetWeights now expiration blackout [] h n s = ([], h, n, s)"
| "GetWeights now expiration blackout (e # es) h n s =
     (case GetWeight now expiration blackout n s (h (info_weight e)) of
        (w, ew, n1, s1) \<Rightarrow>
          (case GetWeights now expiration blackout es (h(info_weight e := ew)) n1 s1 of
             (ws, h2, n2, s2) \<Rightarrow> (w # ws, h2, n2, s2)))"

text \<open>
  \<^verbatim>\<open>BuildSchedulerAndStartTimerLocked\<close> (lines 610-682): the picker with its new
  scheduler (or none, the round-robin fallback), the weight heap, and the values added to
  the counters \<^verbatim>\<open>endpoint_weight_not_yet_usable\<close> and
  \<^verbatim>\<open>endpoint_weight_stale\<close>.
\<close>

definition BuildSchedulerAndStartTimerLocked ::
  "'s env \<Rightarrow> (nat \<Rightarrow> EndpointWeight) \<Rightarrow> 's Picker
     \<Rightarrow> 's Picker \<times> (nat \<Rightarrow> EndpointWeight) \<times> 64 word \<times> 64 word" where
  "BuildSchedulerAndStartTimerLocked env h p =
     (case GetWeights (env_Now env)
             (weight_expiration_period (picker_config p)) (blackout_period (picker_config p))
             (picker_endpoints p) h 0 0 of
        (ws, h1, num_not_yet_usable, num_stale) \<Rightarrow>
          (p\<lparr>scheduler := env_Make env ws\<rparr>, h1, num_not_yet_usable, num_stale))"

text \<open>
  The constructor of \<^verbatim>\<open>Picker\<close> (lines 538-559): the snapshot of the endpoints in
  state READY, a random \<^verbatim>\<open>last_picked_index_\<close>, then the first scheduler.
\<close>

definition Picker_snapshot :: "WrrEndpointList \<Rightarrow> EndpointInfo list" where
  "Picker_snapshot l =
     map (\<lambda>ep. \<lparr>info_picker = picker ep, info_weight = endpoint_weight ep\<rparr>)
       (filter (\<lambda>ep. connectivity_state ep = Some GRPC_CHANNEL_READY) (endpoints l))"

definition Picker_new ::
  "'s env \<Rightarrow> WeightedRoundRobin \<Rightarrow> WrrEndpointList \<Rightarrow> 's Picker \<times> (nat \<Rightarrow> EndpointWeight)" where
  "Picker_new env wrr l =
     (case BuildSchedulerAndStartTimerLocked env (weight_heap wrr)
             \<lparr>picker_config = config wrr, picker_endpoints = Picker_snapshot l,
              scheduler = None, last_picked_index = env_Uniform env\<rparr> of
        (p, h, num_not_yet_usable, num_stale) \<Rightarrow> (p, h))"

text \<open>
  \<^verbatim>\<open>PickIndex\<close> (lines 596-608). \<open>sched_Pick\<close> stands for
  \<^verbatim>\<open>StaticStrideScheduler::Pick\<close>, which draws from the policy's
  \<^verbatim>\<open>scheduler_state_\<close>; the result is the index, the picker and
  \<^verbatim>\<open>scheduler_state_\<close>. \<^verbatim>\<open>fetch_add(1)\<close> returns the old value and wraps.
\<close>

definition PickIndex ::
  "('s \<Rightarrow> 32 word \<Rightarrow> nat \<times> 32 word) \<Rightarrow> 's Picker \<Rightarrow> 32 word
     \<Rightarrow> error + (nat \<times> 's Picker \<times> 32 word)" where
  "PickIndex sched_Pick p st =
     (case scheduler p of
        Some sch \<Rightarrow> (case sched_Pick sch st of (i, st1) \<Rightarrow> Inr (i, p, st1))
      | None \<Rightarrow>
          if length (picker_endpoints p) = 0 then Inl DivisionByZero
          else Inr (unat (last_picked_index p) mod length (picker_endpoints p),
                    p\<lparr>last_picked_index := last_picked_index p + 1\<rparr>, st))"

text \<open>
  The result of a pick, and \<^verbatim>\<open>Pick\<close> (lines 575-594). \<open>child_Pick\<close> stands for
  the \<^verbatim>\<open>Pick\<close> of a child picker. A call tracker is the child's own or the
  \<^verbatim>\<open>SubchannelCallTracker\<close> wrapped around it.
\<close>

datatype CallTracker =
    ChildCallTracker nat
  | SubchannelCallTracker nat fp "CallTracker option"

datatype PickResult =
    Complete nat "CallTracker option"
  | Queue
  | Fail Status
  | Drop Status

definition Pick ::
  "('s \<Rightarrow> 32 word \<Rightarrow> nat \<times> 32 word) \<Rightarrow> (nat \<Rightarrow> 'a \<Rightarrow> PickResult) \<Rightarrow> 's Picker \<Rightarrow> 32 word \<Rightarrow> 'a
     \<Rightarrow> error + (PickResult \<times> 's Picker \<times> 32 word)" where
  "Pick sched_Pick child_Pick p st args =
     (case PickIndex sched_Pick p st of
        Inl e \<Rightarrow> Inl e
      | Inr (index, p1, st1) \<Rightarrow>
          if \<not> index < length (picker_endpoints p) then Inl CheckFailed
          else
            (let endpoint_info = picker_endpoints p ! index in
             case info_picker endpoint_info of
               None \<Rightarrow> Inl NullPointer
             | Some cp \<Rightarrow>
                 (let result = child_Pick cp args in
                  Inr (if \<not> enable_oob_load_report (picker_config p) then
                         (case result of
                            Complete sc tracker \<Rightarrow>
                              Complete sc
                                (Some (SubchannelCallTracker (info_weight endpoint_info)
                                         (error_utilization_penalty (picker_config p)) tracker))
                          | r \<Rightarrow> r)
                       else result,
                       p1, st1))))"

subsection \<open>Endpoint list aggregation\<close>

text \<open>\<^verbatim>\<open>UpdateStateCountersLocked\<close> (lines 895-923), with its checks.\<close>

definition UpdateStateCountersLocked ::
  "grpc_connectivity_state option \<Rightarrow> grpc_connectivity_state \<Rightarrow> WrrEndpointList
     \<Rightarrow> error + WrrEndpointList" where
  "UpdateStateCountersLocked old_state new_state l =
     (case (case old_state of
              None \<Rightarrow> Inr l
            | Some old \<Rightarrow>
                if old = GRPC_CHANNEL_SHUTDOWN then Inl CheckFailed
                else if old = GRPC_CHANNEL_READY then
                  (if \<not> num_ready l > 0 then Inl CheckFailed
                   else Inr (l\<lparr>num_ready := num_ready l - 1\<rparr>))
                else if old = GRPC_CHANNEL_CONNECTING \<or> old = GRPC_CHANNEL_IDLE then
                  (if \<not> num_connecting l > 0 then Inl CheckFailed
                   else Inr (l\<lparr>num_connecting := num_connecting l - 1\<rparr>))
                else if old = GRPC_CHANNEL_TRANSIENT_FAILURE then
                  (if \<not> num_transient_failure l > 0 then Inl CheckFailed
                   else Inr (l\<lparr>num_transient_failure := num_transient_failure l - 1\<rparr>))
                else Inr l) of
        Inl e \<Rightarrow> Inl e
      | Inr l1 \<Rightarrow>
          if new_state = GRPC_CHANNEL_SHUTDOWN then Inl CheckFailed
          else if new_state = GRPC_CHANNEL_READY then
            Inr (l1\<lparr>num_ready := num_ready l1 + 1\<rparr>)
          else if new_state = GRPC_CHANNEL_CONNECTING \<or> new_state = GRPC_CHANNEL_IDLE then
            Inr (l1\<lparr>num_connecting := num_connecting l1 + 1\<rparr>)
          else if new_state = GRPC_CHANNEL_TRANSIENT_FAILURE then
            Inr (l1\<lparr>num_transient_failure := num_transient_failure l1 + 1\<rparr>)
          else Inr l1)"

text \<open>
  Modelled from the spec: \<^verbatim>\<open>EndpointList::ReportTransientFailure\<close> of the base
  class, whose source is not among the files: it publishes TRANSIENT_FAILURE with a
  failing picker that carries the status.
\<close>

definition ReportTransientFailure :: "Status \<Rightarrow> 's call list" where
  "ReportTransientFailure status =
     [UpdateState GRPC_CHANNEL_TRANSIENT_FAILURE status (TransientFailurePicker status)]"

text \<open>
  \<^verbatim>\<open>MaybeUpdateAggregatedConnectivityStateLocked\<close> (lines 925-978) on the list at
  address \<open>this\<close>: first the swap of the pending list into \<^verbatim>\<open>endpoint_list_\<close>
  (lines 936-947), then the report (lines 949-977). The result is the policy state and the
  calls made.
\<close>

definition MaybeUpdateAggregatedConnectivityStateLocked ::
  "'s env \<Rightarrow> nat \<Rightarrow> Status \<Rightarrow> WeightedRoundRobin
     \<Rightarrow> error + (WeightedRoundRobin \<times> 's call list)" where
  "MaybeUpdateAggregatedConnectivityStateLocked env this status_for_tf wrr =
     (let l = list_heap wrr this in
      case (if latest_pending_endpoint_list wrr = Some this then
              (case endpoint_list wrr of
                 None \<Rightarrow> Inl NullPointer
               | Some a \<Rightarrow>
                   if num_ready (list_heap wrr a) = 0
                      \<or> (num_ready l > 0 \<and> AllEndpointsSeenInitialState l)
                      \<or> num_transient_failure l = EndpointList_size l
                   then Inr (wrr\<lparr>endpoint_list := latest_pending_endpoint_list wrr,
                                 latest_pending_endpoint_list := None\<rparr>)
                   else Inr wrr)
            else Inr wrr) of
        Inl e \<Rightarrow> Inl e
      | Inr wrr1 \<Rightarrow>
          if endpoint_list wrr1 \<noteq> Some this then Inr (wrr1, [])
          else if num_ready l > 0 then
            (case Picker_new env wrr1 l of
               (p, h) \<Rightarrow>
                 Inr (wrr1\<lparr>weight_heap := h\<rparr>,
                      [UpdateState GRPC_CHANNEL_READY OkStatus (WrrPicker p)]))
          else if num_connecting l > 0 then
            Inr (wrr1, [UpdateState GRPC_CHANNEL_CONNECTING OkStatus QueuePicker])
          else if num_transient_failure l = EndpointList_size l then
            (let l1 = (if \<not> ok status_for_tf then
                         l\<lparr>last_failure :=
                             UnavailableError
                               (''connections to all backends failing; last error: ''
                                  @ Status_ToString status_for_tf)\<rparr>
                       else l)
             in Inr (wrr1\<lparr>list_heap := (list_heap wrr1)(this := l1)\<rparr>,
                     ReportTransientFailure (last_failure l1)))
          else Inr (wrr1, []))"

text \<open>
  \<^verbatim>\<open>WrrEndpoint::OnStateUpdate\<close> (lines 848-889) for the endpoint at position
  \<open>index\<close> of the list at address \<open>this\<close>.
\<close>

definition OnStateUpdate ::
  "'s env \<Rightarrow> nat \<Rightarrow> nat \<Rightarrow> grpc_connectivity_state option \<Rightarrow> grpc_connectivity_state \<Rightarrow> Status
     \<Rightarrow> WeightedRoundRobin \<Rightarrow> error + (WeightedRoundRobin \<times> 's call list)" where
  "OnStateUpdate env this index old_state new_state status wrr =
     (if \<not> index < length (endpoints (list_heap wrr this)) then Inl NullPointer
      else
        (let weight_ptr = endpoint_weight (endpoints (list_heap wrr this) ! index);
             (wrr1, calls1) =
               (if new_state = GRPC_CHANNEL_IDLE then (wrr, [ExitIdleLocked index])
                else if new_state = GRPC_CHANNEL_READY then
                  (if old_state \<noteq> None \<and> old_state \<noteq> Some GRPC_CHANNEL_READY then
                     (wrr\<lparr>weight_heap := (weight_heap wrr)
                             (weight_ptr := ResetNonEmptySince (weight_heap wrr weight_ptr))\<rparr>,
                      [Invoke_ResetNonEmptySince weight_ptr])
                   else (wrr, []))
                else (wrr, []))
         in
           case (if old_state = None \<or> old_state \<noteq> Some new_state then
                   (case UpdateStateCountersLocked old_state new_state (list_heap wrr1 this) of
                      Inl e \<Rightarrow> Inl e
                    | Inr l1 \<Rightarrow> Inr (wrr1\<lparr>list_heap := (list_heap wrr1)(this := l1)\<rparr>))
                 else Inr wrr1) of
             Inl e \<Rightarrow> Inl e
           | Inr wrr2 \<Rightarrow>
               (case MaybeUpdateAggregatedConnectivityStateLocked env this status wrr2 of
                  Inl e \<Rightarrow> Inl e
                | Inr (wrr3, calls3) \<Rightarrow> Inr (wrr3, calls1 @ calls3))))"


subsection \<open>Resolver updates\<close>

text \<open>
  Modelled from the spec: \<^verbatim>\<open>EndpointAddressSet\<close> of
  \<^verbatim>\<open>src/core/resolver/endpoint_addresses.h\<close>, which is not among the sources: a
  key with the equality of the unordered set of addresses, under a total order. The key
  is the sorted list of the distinct addresses; keys are compared lexicographically.
\<close>

definition EndpointAddressSet :: "nat list \<Rightarrow> nat list" where
  "EndpointAddressSet as = sorted_list_of_set (set as)"

fun EndpointAddressSet_less :: "nat list \<Rightarrow> nat list \<Rightarrow> bool" where
  "EndpointAddressSet_less [] [] = False"
| "EndpointAddressSet_less [] (y # ys) = True"
| "EndpointAddressSet_less (x # xs) [] = False"
| "EndpointAddressSet_less (x # xs) (y # ys) =
     (x < y \<or> (x = y \<and> EndpointAddressSet_less xs ys))"

text \<open>\<^verbatim>\<open>EndpointAddressesLessThan\<close> (lines 735-743).\<close>

definition EndpointAddressesLessThan :: "EndpointAddresses \<Rightarrow> EndpointAddresses \<Rightarrow> bool" where
  "EndpointAddressesLessThan endpoint1 endpoint2 =
     EndpointAddressSet_less (EndpointAddressSet (addresses endpoint1))
       (EndpointAddressSet (addresses endpoint2))"

text \<open>
  \<^verbatim>\<open>std::set::insert\<close> under that comparison, on the ordered sequence of the
  elements: an element equivalent to one already present is not inserted. Then the
  \<^verbatim>\<open>ForEach\<close> of lines 744-747.
\<close>

fun set_insert :: "EndpointAddresses \<Rightarrow> EndpointAddresses list \<Rightarrow> EndpointAddresses list" where
  "set_insert e [] = [e]"
| "set_insert e (x # xs) =
     (if EndpointAddressesLessThan e x then e # x # xs
      else if EndpointAddressesLessThan x e then x # set_insert e xs
      else x # xs)"

definition ordered_addresses :: "EndpointAddresses list \<Rightarrow> EndpointAddresses list" where
  "ordered_addresses es = foldl (\<lambda>acc e. set_insert e acc) [] es"

text \<open>
  \<^verbatim>\<open>GetOrCreateWeight\<close> (lines 797-811). An entry whose object yields no
  reference is passed over; \<^verbatim>\<open>emplace\<close> inserts only under a key that is absent.
\<close>

definition GetOrCreateWeight ::
  "'s env \<Rightarrow> nat list \<Rightarrow> WeightedRoundRobin \<Rightarrow> nat \<times> WeightedRoundRobin" where
  "GetOrCreateWeight env as wrr =
     (let key = EndpointAddressSet as;
          found = (case endpoint_weight_map wrr key of
                     None \<Rightarrow> None
                   | Some w \<Rightarrow> if env_RefIfNonZero env w then Some w else None)
      in case found of
           Some w \<Rightarrow> (w, wrr)
         | None \<Rightarrow>
             (let w = weight_alloc wrr in
              (w, wrr\<lparr>weight_heap := (weight_heap wrr)(w := EndpointWeight_init),
                       endpoint_weight_map :=
                         (if endpoint_weight_map wrr key = None
                          then (endpoint_weight_map wrr)(key \<mapsto> w)
                          else endpoint_weight_map wrr),
                       weight_alloc := Suc w\<rparr>)))"

text \<open>
  The destructor of the \<^verbatim>\<open>EndpointWeight\<close> at address \<open>this\<close> with key
  \<open>key\<close> (lines 428-434), run when its last reference is released.
\<close>

definition EndpointWeight_destructor ::
  "nat list \<Rightarrow> nat \<Rightarrow> WeightedRoundRobin \<Rightarrow> WeightedRoundRobin" where
  "EndpointWeight_destructor key this wrr =
     (if endpoint_weight_map wrr key = Some this
      then wrr\<lparr>endpoint_weight_map := (endpoint_weight_map wrr)(key := None)\<rparr>
      else wrr)"

text \<open>
  The constructor of \<^verbatim>\<open>WrrEndpointList\<close> (lines 278-293) with that of
  \<^verbatim>\<open>WrrEndpoint\<close> (lines 233-245). Modelled from the spec:
  \<^verbatim>\<open>EndpointList::Init\<close> of the base class, whose source is not among the files,
  builds one endpoint per element of the sequence, in order, and none for a null
  iterator; a new endpoint has seen no state notification. The result is the list, the
  vector \<^verbatim>\<open>errors\<close> and the policy state.
\<close>

fun WrrEndpoints_new ::
  "'s env \<Rightarrow> EndpointAddresses list \<Rightarrow> WeightedRoundRobin
     \<Rightarrow> WrrEndpoint list \<times> string list \<times> WeightedRoundRobin" where
  "WrrEndpoints_new env [] wrr = ([], [], wrr)"
| "WrrEndpoints_new env (a # as) wrr =
     (case GetOrCreateWeight env (addresses a) wrr of
        (w, wrr1) \<Rightarrow>
          (let status = env_Init env a;
               errors1 = (if \<not> ok status then
                            [''endpoint '' @ env_ToString env a @ '': '' @ Status_ToString status]
                          else [])
           in case WrrEndpoints_new env as wrr1 of
                (eps, errors2, wrr2) \<Rightarrow>
                  (\<lparr>connectivity_state = None, picker = None, endpoint_weight = w\<rparr> # eps,
                   errors1 @ errors2, wrr2)))"

definition WrrEndpointList_new ::
  "'s env \<Rightarrow> EndpointAddresses list option \<Rightarrow> string \<Rightarrow> WeightedRoundRobin
     \<Rightarrow> WrrEndpointList \<times> string list \<times> WeightedRoundRobin" where
  "WrrEndpointList_new env endpoints_iter note wrr =
     (case WrrEndpoints_new env (case endpoints_iter of None \<Rightarrow> [] | Some es \<Rightarrow> es) wrr of
        (eps, errors, wrr1) \<Rightarrow>
          (\<lparr>endpoints = eps, resolution_note = note, num_ready = 0, num_connecting = 0,
            num_transient_failure = 0, last_failure = OkStatus\<rparr>,
           errors, wrr1))"

text \<open>
  \<^verbatim>\<open>UpdateArgs\<close>: \<^verbatim>\<open>addresses\<close> is an \<^verbatim>\<open>absl::StatusOr\<close>, the
  resolver's error status (\<open>Inl\<close>) or the endpoints.
\<close>

record UpdateArgs =
  args_addresses :: "Status + EndpointAddresses list"
  args_config :: WeightedRoundRobinConfig
  args_resolution_note :: string

text \<open>
  \<^verbatim>\<open>UpdateLocked\<close> (lines 720-795). The result is the returned status, the policy
  state and the calls made. The new list is stored at the next unused list address.
\<close>

definition UpdateLocked ::
  "'s env \<Rightarrow> UpdateArgs \<Rightarrow> WeightedRoundRobin \<Rightarrow> Status \<times> WeightedRoundRobin \<times> 's call list" where
  "UpdateLocked env args wrr0 =
     (let wrr = wrr0\<lparr>config := args_config args\<rparr>;
          addresses_ok = (case args_addresses args of Inl st \<Rightarrow> False | Inr es \<Rightarrow> True);
          addresses_status = (case args_addresses args of Inl st \<Rightarrow> st | Inr es \<Rightarrow> OkStatus);
          addresses_iter =
            (case args_addresses args of
               Inl st \<Rightarrow> None
             | Inr es \<Rightarrow> Some (ordered_addresses es))
      in
        if \<not> addresses_ok \<and> endpoint_list wrr \<noteq> None then (addresses_status, wrr, [])
        else
          (case WrrEndpointList_new env addresses_iter (args_resolution_note args) wrr of
             (new_list, errors, wrr1) \<Rightarrow>
               (let new_ptr = list_alloc wrr1;
                    wrr2 = wrr1\<lparr>list_heap := (list_heap wrr1)(new_ptr := new_list),
                                 list_alloc := Suc new_ptr,
                                 latest_pending_endpoint_list := Some new_ptr\<rparr>
                in
                  if EndpointList_size (list_heap wrr2 new_ptr) = 0 then
                    (let wrr3 = wrr2\<lparr>endpoint_list := latest_pending_endpoint_list wrr2,
                                      latest_pending_endpoint_list := None\<rparr>;
                         status = (if addresses_ok then UnavailableError ''empty address list''
                                   else addresses_status)
                     in (status, wrr3, ReportTransientFailure status))
                  else
                    (let wrr3 = (if endpoint_list wrr2 = None then
                                   wrr2\<lparr>endpoint_list := latest_pending_endpoint_list wrr2,
                                        latest_pending_endpoint_list := None\<rparr>
                                 else wrr2)
                     in
                       if errors \<noteq> [] then
                         (UnavailableError
                            (''errors from children: ['' @ StrJoin errors ''; '' @ '']''),
                          wrr3, [])
                       else (OkStatus, wrr3, [])))))"


subsection \<open>Conditions named by the properties\<close>

text \<open>
  The condition of lines 937-939 under which the pending list at address \<open>this\<close>
  replaces the active list at address \<open>a\<close>: the active list has no READY endpoint, or
  the pending list has a READY endpoint and all its endpoints have reported a state, or
  \<^verbatim>\<open>num_transient_failure_\<close> of the pending list equals its size.
\<close>

definition promotes :: "WeightedRoundRobin \<Rightarrow> nat \<Rightarrow> nat \<Rightarrow> bool" where
  "promotes wrr a this \<longleftrightarrow>
     num_ready (list_heap wrr a) = 0
     \<or> (0 < num_ready (list_heap wrr this) \<and> AllEndpointsSeenInitialState (list_heap wrr this))
     \<or> num_transient_failure (list_heap wrr this) = EndpointList_size (list_heap wrr this)"

text \<open>
  The condition of lines 865 and 879 under which \<^verbatim>\<open>OnStateUpdate\<close> calls
  \<^verbatim>\<open>ResetNonEmptySince\<close>, and the calls that publish a state.
\<close>

definition resets :: "grpc_connectivity_state option \<Rightarrow> grpc_connectivity_state \<Rightarrow> bool" where
  "resets old_state new_state \<longleftrightarrow>
     new_state = GRPC_CHANNEL_READY \<and> old_state \<noteq> None
     \<and> old_state \<noteq> Some GRPC_CHANNEL_READY"

fun is_UpdateState :: "'s call \<Rightarrow> bool" where
  "is_UpdateState (UpdateState st status p) = True"
| "is_UpdateState c = False"

subsection \<open>Example states\<close>

text \<open>
  A policy with an active list at address 0 (one READY endpoint) and a pending list at
  address 1 (two endpoints, the first of which has just connected); both lists share
  the weight object 0, which has a recent report. No scheduler is built (round-robin
  fallback).
\<close>

definition ex_env :: "nat env" where
  "ex_env = \<lparr>env_Now = Millis 1000, env_Uniform = 4, env_Make = (\<lambda>ws. None),
             env_RefIfNonZero = (\<lambda>w. True),
             env_Init = (\<lambda>a. OkStatus), env_ToString = (\<lambda>a. ''ep'')\<rparr>"

definition ex_weights :: "nat \<Rightarrow> EndpointWeight" where
  "ex_weights = (\<lambda>p. EndpointWeight_init)
     (0 := \<lparr>weight = Finite 2, non_empty_since = Millis 100, last_update_time = Millis 900\<rparr>)"

definition ex_active :: WrrEndpointList where
  "ex_active =
     \<lparr>endpoints = [\<lparr>connectivity_state = Some GRPC_CHANNEL_READY, picker = Some 10,
                    endpoint_weight = 0\<rparr>],
      resolution_note = [], num_ready = 1, num_connecting = 0, num_transient_failure = 0,
      last_failure = OkStatus\<rparr>"

definition ex_pending :: WrrEndpointList where
  "ex_pending =
     \<lparr>endpoints = [\<lparr>connectivity_state = Some GRPC_CHANNEL_READY, picker = Some 11,
                    endpoint_weight = 0\<rparr>,
                   \<lparr>connectivity_state = Some GRPC_CHANNEL_CONNECTING, picker = None,
                    endpoint_weight = 1\<rparr>],
      resolution_note = [], num_ready = 0, num_connecting = 2, num_transient_failure = 0,
      last_failure = OkStatus\<rparr>"

definition ex_wrr :: WeightedRoundRobin where
  "ex_wrr =
     \<lparr>config = WeightedRoundRobinConfig_default,
      endpoint_list = Some 0, latest_pending_endpoint_list = Some 1,
      list_heap = (\<lambda>p. ex_active)(1 := ex_pending),
      weight_heap = ex_weights,
      endpoint_weight_map = [[1] \<mapsto> 0, [2] \<mapsto> 1],
      weight_alloc = 2, list_alloc = 2, shutdown = False, scheduler_state = 0\<rparr>"

text \<open>
  The same policy when the second endpoint of the pending list has not reported a state
  yet, and a policy whose only list has its single endpoint in TRANSIENT_FAILURE.
\<close>

definition ex_unseen :: WeightedRoundRobin where
  "ex_unseen =
     ex_wrr\<lparr>list_heap := (\<lambda>p. ex_active)
       (1 := \<lparr>endpoints = [\<lparr>connectivity_state = Some GRPC_CHANNEL_READY, picker = Some 11,
                             endpoint_weight = 0\<rparr>,
                            \<lparr>connectivity_state = None, picker = None,
                             endpoint_weight = 1\<rparr>],
               resolution_note = [], num_ready = 0, num_connecting = 1,
               num_transient_failure = 0, last_failure = OkStatus\<rparr>)\<rparr>"

definition ex_failing :: WeightedRoundRobin where
  "ex_failing =
     ex_wrr\<lparr>latest_pending_endpoint_list := None,
            list_heap := (\<lambda>p.
              \<lparr>endpoints = [\<lparr>connectivity_state = Some GRPC_CHANNEL_TRANSIENT_FAILURE,
                             picker = Some 10, endpoint_weight = 0\<rparr>],
               resolution_note = [], num_ready = 0, num_connecting = 0,
               num_transient_failure = 1, last_failure = OkStatus\<rparr>)\<rparr>"

text \<open>
  The pending list before the first notification of its first endpoint, which the base
  class has just recorded as READY, and a later time at which the weight object 0 has
  expired.
\<close>

definition ex_first :: WeightedRoundRobin where
  "ex_first =
     ex_wrr\<lparr>list_heap := (\<lambda>p. ex_active)
       (1 := \<lparr>endpoints = [\<lparr>connectivity_state = Some GRPC_CHANNEL_READY, picker = Some 11,
                             endpoint_weight = 0\<rparr>,
                            \<lparr>connectivity_state = Some GRPC_CHANNEL_CONNECTING, picker = None,
                             endpoint_weight = 1\<rparr>],
               resolution_note = [], num_ready = 0, num_connecting = 1,
               num_transient_failure = 0, last_failure = OkStatus\<rparr>)\<rparr>"

definition ex_late_env :: "nat env" where
  "ex_late_env = ex_env\<lparr>env_Now := Millis 500000\<rparr>"

definition ex_picker :: "nat Picker" where
  "ex_picker =
     \<lparr>picker_config = WeightedRoundRobinConfig_default,
      picker_endpoints = [\<lparr>info_picker = Some 0, info_weight = 0\<rparr>,
                          \<lparr>info_picker = Some 1, info_weight = 1\<rparr>,
                          \<lparr>info_picker = Some 2, info_weight = 2\<rparr>],
      scheduler = None, last_picked_index = 4\<rparr>"

text \<open>
  The status recorded by the policy when all backends fail with the status
  \<^verbatim>\<open>UNAVAILABLE: refused\<close>, and a resolver update with an error status.
\<close>

definition ex_recorded :: Status where
  "ex_recorded =
     UnavailableError
       ''connections to all backends failing; last error: UNAVAILABLE: refused''"

definition ex_error_args :: UpdateArgs where
  "ex_error_args =
     \<lparr>args_addresses = Inl (Status kUnavailable ''dns''),
      args_config = WeightedRoundRobinConfig_default, args_resolution_note = []\<rparr>"

definition ex_empty_args :: UpdateArgs where
  "ex_empty_args =
     \<lparr>args_addresses = Inr [],
      args_config = WeightedRoundRobinConfig_default, args_resolution_note = []\<rparr>"

text \<open>The policy after the empty list built by an update has replaced the active list.\<close>

definition ex_emptied :: WeightedRoundRobin where
  "ex_emptied =
     ex_wrr\<lparr>list_heap := (list_heap ex_wrr)
              (2 := \<lparr>endpoints = [], resolution_note = [], num_ready = 0,
                     num_connecting = 0, num_transient_failure = 0,
                     last_failure = OkStatus\<rparr>),
            list_alloc := 3,
            latest_pending_endpoint_list := None,
            endpoint_list := Some 2\<rparr>"

section \<open>Properties\<close>

subsection \<open>Order lemmas for time\<close>

lemma Duration_less_simps [simp]:
  "(Milliseconds a < Milliseconds b) = (a < b)"
  "NegativeInfinity < Milliseconds a" "Milliseconds a < Infinity" "NegativeInfinity < Infinity"
  "\<not> Milliseconds a < NegativeInfinity" "\<not> Infinity < d" "\<not> d < NegativeInfinity"
  by (cases d; auto simp: less_Duration_def)+

lemma Timestamp_less_simps [simp]:
  "(Millis a < Millis b) = (a < b)" "Millis a < InfFuture" "\<not> InfFuture < t"
  "(InfFuture \<le> t) = (t = InfFuture)"
  by (cases t; auto simp: less_Timestamp_def)+

subsection \<open>Floating point\<close>

lemma pow2_powr: "pow2 e = 2 powr (of_int e)"
  by (simp add: pow2_def powr_real_of_int field_simps)

lemma pow2_pos: "0 < pow2 e"
  by (simp add: pow2_powr)

lemma pow2_mono: "a \<le> b \<Longrightarrow> pow2 a \<le> pow2 b"
  by (simp add: pow2_powr)

lemma find_exponent_eval:
  "k0 \<le> k \<Longrightarrow> k - k0 \<le> int n \<Longrightarrow> pow2 k \<le> \<bar>x\<bar> \<or> k = k0 \<Longrightarrow> \<bar>x\<bar> < pow2 (k + 1) \<Longrightarrow>
     find_exponent n k0 x = k"
proof (induction n arbitrary: k0)
  case 0
  then show ?case by simp
next
  case (Suc n)
  show ?case
  proof (cases "k0 = k")
    case True
    then show ?thesis using Suc.prems(4) by simp
  next
    case False
    then have lt: "k0 + 1 \<le> k" using Suc.prems(1) by simp
    have "pow2 (k0 + 1) \<le> pow2 k" using lt by (rule pow2_mono)
    moreover have "pow2 k \<le> \<bar>x\<bar>" using Suc.prems(3) False by simp
    ultimately have "pow2 (k0 + 1) \<le> \<bar>x\<bar>" by linarith
    moreover have "find_exponent n (k0 + 1) x = k"
      using lt Suc.prems by (intro Suc.IH) auto
    ultimately show ?thesis by simp
  qed
qed

lemma fp_round_eval:
  assumes "1 - emax \<le> k" "k \<le> emax + 1" "pow2 k \<le> \<bar>x\<bar> \<or> k = 1 - emax"
    "\<bar>x\<bar> < pow2 (k + 1)"
  shows "fp_round p emax x = fp_round_at p emax k x"
proof -
  have "find_exponent (nat (2 * emax)) (1 - emax) x = k"
    using assms by (intro find_exponent_eval) auto
  then show ?thesis by (simp add: fp_round_def binary_exponent_def)
qed

lemmas fp_eval_defs = pow2_def fp_round_at_def round_even_def Let_def

lemma round_double_values [simp]:
  "round_double 0 = Finite 0"
  "round_double (1 / 2) = Finite (1 / 2)"
  "round_double 1 = Finite 1"
  "round_double 2 = Finite 2"
  "round_double 3 = Finite 3"
  "round_double (1 / 3) = Finite (6004799503160661 / 18014398509481984)"
proof -
  show "round_double 0 = Finite 0"
    unfolding round_double_def by (subst fp_round_eval [of _ "- 1022"]) (simp_all add: fp_eval_defs)
  show "round_double (1 / 2) = Finite (1 / 2)"
    unfolding round_double_def by (subst fp_round_eval [of _ "- 1"]) (simp_all add: fp_eval_defs)
  show "round_double 1 = Finite 1"
    unfolding round_double_def by (subst fp_round_eval [of _ 0]) (simp_all add: fp_eval_defs)
  show "round_double 2 = Finite 2"
    unfolding round_double_def by (subst fp_round_eval [of _ 1]) (simp_all add: fp_eval_defs)
  show "round_double 3 = Finite 3"
    unfolding round_double_def by (subst fp_round_eval [of _ 1]) (simp_all add: fp_eval_defs)
  show "round_double (1 / 3) = Finite (6004799503160661 / 18014398509481984)"
    unfolding round_double_def by (subst fp_round_eval [of _ "- 2"]) (simp_all add: fp_eval_defs)
qed

lemma round_float_values [simp]:
  "round_float 0 = Finite 0"
  "round_float (1 / 2) = Finite (1 / 2)"
  "round_float 1 = Finite 1"
  "round_float 2 = Finite 2"
  "round_float (6004799503160661 / 18014398509481984) = Finite (11184811 / 33554432)"
proof -
  show "round_float 0 = Finite 0"
    unfolding round_float_def by (subst fp_round_eval [of _ "- 126"]) (simp_all add: fp_eval_defs)
  show "round_float (1 / 2) = Finite (1 / 2)"
    unfolding round_float_def by (subst fp_round_eval [of _ "- 1"]) (simp_all add: fp_eval_defs)
  show "round_float 1 = Finite 1"
    unfolding round_float_def by (subst fp_round_eval [of _ 0]) (simp_all add: fp_eval_defs)
  show "round_float 2 = Finite 2"
    unfolding round_float_def by (subst fp_round_eval [of _ 1]) (simp_all add: fp_eval_defs)
  show "round_float (6004799503160661 / 18014398509481984) = Finite (11184811 / 33554432)"
    unfolding round_float_def by (subst fp_round_eval [of _ "- 2"]) (simp_all add: fp_eval_defs)
qed

text \<open>A positive \<^verbatim>\<open>double\<close> below the least positive \<^verbatim>\<open>float\<close>.\<close>

lemma round_double_tiny: "round_double (1 / 2 ^ 200) = Finite (1 / 2 ^ 200)"
  unfolding round_double_def by (subst fp_round_eval [of _ "- 200"]) (simp_all add: fp_eval_defs)

lemma round_float_tiny: "round_float (1 / 2 ^ 200) = Finite 0"
  unfolding round_float_def by (subst fp_round_eval [of _ "- 126"]) (simp_all add: fp_eval_defs)

lemmas round_tiny [simp] = round_double_tiny [simplified] round_float_tiny [simplified]

lemma round_even_nonneg: "0 \<le> y \<Longrightarrow> 0 \<le> round_even y"
  by (simp add: round_even_def)

lemma fp_round_at_nonneg: "0 \<le> x \<Longrightarrow> fp_ge0 (fp_round_at p emax k x)"
proof -
  assume x: "0 \<le> x"
  define q where "q = pow2 (k - int p + 1)"
  have q: "0 < q" unfolding q_def by (rule pow2_pos)
  have "0 \<le> x / q" using x q by simp
  then have "0 \<le> round_even (x / q)" by (rule round_even_nonneg)
  then have "0 \<le> of_int (round_even (x / q)) * q" using q by simp
  moreover have "round_even 0 = 0" by (simp add: round_even_def)
  ultimately show ?thesis
    using x pow2_pos [of "emax + 1"] unfolding fp_round_at_def Let_def q_def [symmetric]
    by (auto simp: not_less)
qed

lemma fp_round_nonneg: "0 \<le> x \<Longrightarrow> fp_ge0 (fp_round p emax x)"
  by (simp add: fp_round_def fp_round_at_nonneg)

lemma float_of_double_not_negative:
  "fp_not_negative x \<Longrightarrow> fp_not_negative (float_of_double x)"
  by (cases x) (auto simp: fp_not_negative_def round_float_def fp_round_nonneg)

lemma double_add_not_negative:
  "fp_not_negative x \<Longrightarrow> fp_not_negative y \<Longrightarrow> fp_not_negative (double_add x y)"
  by (cases x; cases y) (auto simp: fp_not_negative_def round_double_def fp_round_nonneg)

lemma double_mul_not_negative:
  "fp_not_negative x \<Longrightarrow> fp_not_negative y \<Longrightarrow> fp_not_negative (double_mul x y)"
  by (cases x; cases y)
    (auto simp: fp_not_negative_def round_double_def fp_round_nonneg fp_inf_def)

lemma double_div_not_negative:
  "fp_not_negative x \<Longrightarrow> fp_not_negative y \<Longrightarrow> fp_not_negative (double_div x y)"
  by (cases x; cases y)
    (auto simp: fp_not_negative_def round_double_def fp_round_nonneg fp_inf_def)

lemma fp_gt0_not_negative: "fp_gt0 x \<Longrightarrow> fp_not_negative x"
  by (cases x) (auto simp: fp_not_negative_def)

lemma MaybeUpdateWeight_weight_not_negative:
  "fp_not_negative (MaybeUpdateWeight_weight qps eps u p)"
proof (cases "fp_gt0 qps \<and> fp_gt0 u")
  case False
  then show ?thesis by (auto simp: MaybeUpdateWeight_weight_def fp_not_negative_def)
next
  case True
  define pen where "pen = (if fp_gt0 eps \<and> fp_gt0 p
                then double_mul (double_div eps qps) p else Finite 0)"
  have "fp_not_negative pen"
  proof (cases "fp_gt0 eps \<and> fp_gt0 p")
    case False
    then show ?thesis by (auto simp: pen_def fp_not_negative_def)
  next
    case T: True
    have "fp_not_negative (double_div eps qps)"
      using T True by (intro double_div_not_negative fp_gt0_not_negative) auto
    moreover have "fp_not_negative p"
      using T by (intro fp_gt0_not_negative) auto
    ultimately have "fp_not_negative (double_mul (double_div eps qps) p)"
      by (rule double_mul_not_negative)
    then show ?thesis using T by (simp add: pen_def)
  qed
  moreover have "fp_not_negative u" "fp_not_negative qps"
    using True by (auto intro: fp_gt0_not_negative)
  ultimately have "fp_not_negative (float_of_double (double_div qps (double_add u pen)))"
    by (intro float_of_double_not_negative double_div_not_negative double_add_not_negative)
  moreover have "MaybeUpdateWeight_weight qps eps u p
                 = float_of_double (double_div qps (double_add u pen))"
    unfolding MaybeUpdateWeight_weight_def pen_def Let_def
    by (simp only: True if_True simp_thms)
  ultimately show ?thesis by simp
qed

subsection \<open>GetWeight\<close>

text \<open>
  C1. \<^verbatim>\<open>GetWeight\<close> has three branches. When the last update is at least the
  expiration period old, it increments \<^verbatim>\<open>*num_stale\<close>, sets
  \<^verbatim>\<open>non_empty_since_\<close> to \<^verbatim>\<open>InfFuture\<close> and returns 0. Otherwise, when the
  blackout period is positive and \<^verbatim>\<open>now - non_empty_since_\<close> is below it, it
  increments \<^verbatim>\<open>*num_not_yet_usable\<close>, leaves \<^verbatim>\<open>non_empty_since_\<close> (and the
  rest of the object) unchanged and returns 0. Otherwise it returns the stored weight and
  increments neither counter.
\<close>

theorem GetWeight_branches:
  "(expiration \<le> Timestamp_minus now (last_update_time ew) \<longrightarrow>
      GetWeight now expiration blackout n s ew
        = (Finite 0, ew\<lparr>non_empty_since := InfFuture\<rparr>, n, s + 1))
   \<and> (\<not> expiration \<le> Timestamp_minus now (last_update_time ew)
        \<and> Duration_Zero < blackout
        \<and> Timestamp_minus now (non_empty_since ew) < blackout \<longrightarrow>
      GetWeight now expiration blackout n s ew = (Finite 0, ew, n + 1, s))
   \<and> (\<not> expiration \<le> Timestamp_minus now (last_update_time ew)
        \<and> \<not> (Duration_Zero < blackout
              \<and> Timestamp_minus now (non_empty_since ew) < blackout) \<longrightarrow>
      GetWeight now expiration blackout n s ew = (weight ew, ew, n, s))"
  by (simp add: GetWeight_def)

theorem GetWeight_branches_witness:
  "Milliseconds 100 \<le> Timestamp_minus (Millis 200) (Millis 50)
   \<and> GetWeight (Millis 200) (Milliseconds 100) (Milliseconds 10) 7 (- 1)
         \<lparr>weight = Finite 3, non_empty_since = Millis 0, last_update_time = Millis 50\<rparr>
       = (Finite 0,
          \<lparr>weight = Finite 3, non_empty_since = InfFuture, last_update_time = Millis 50\<rparr>, 7, 0)
   \<and> \<not> Milliseconds 100 \<le> Timestamp_minus (Millis 55) (Millis 50)
   \<and> Duration_Zero < Milliseconds 10
   \<and> Timestamp_minus (Millis 55) (Millis 50) < Milliseconds 10
   \<and> GetWeight (Millis 55) (Milliseconds 100) (Milliseconds 10) 7 (- 1)
         \<lparr>weight = Finite 3, non_empty_since = Millis 50, last_update_time = Millis 50\<rparr>
       = (Finite 0,
          \<lparr>weight = Finite 3, non_empty_since = Millis 50, last_update_time = Millis 50\<rparr>,
          8, - 1)
   \<and> GetWeight (Millis 75) (Milliseconds 100) (Milliseconds 10) 7 (- 1)
         \<lparr>weight = Finite 3, non_empty_since = Millis 50, last_update_time = Millis 50\<rparr>
       = (Finite 3,
          \<lparr>weight = Finite 3, non_empty_since = Millis 50, last_update_time = Millis 50\<rparr>,
          7, - 1)"
  using GetWeight_branches [of "Milliseconds 100" "Millis 200"
      "\<lparr>weight = Finite 3, non_empty_since = Millis 0, last_update_time = Millis 50\<rparr>"
      "Milliseconds 10" 7 "- 1"]
    GetWeight_branches [of "Milliseconds 100" "Millis 55"
      "\<lparr>weight = Finite 3, non_empty_since = Millis 50, last_update_time = Millis 50\<rparr>"
      "Milliseconds 10" 7 "- 1"]
    GetWeight_branches [of "Milliseconds 100" "Millis 75"
      "\<lparr>weight = Finite 3, non_empty_since = Millis 50, last_update_time = Millis 50\<rparr>"
      "Milliseconds 10" 7 "- 1"]
  by (simp add: Duration_Zero_def)

lemma EndpointWeight_step_frame:
  "update_times [c] = [] \<Longrightarrow>
     weight (EndpointWeight_step c ew) = weight ew
     \<and> last_update_time (EndpointWeight_step c ew) = last_update_time ew"
  by (cases c) (simp_all add: GetWeight_def ResetNonEmptySince_def)

lemma EndpointWeight_run_frame:
  "update_times cs = [] \<Longrightarrow>
     weight (EndpointWeight_run cs ew) = weight ew
     \<and> last_update_time (EndpointWeight_run cs ew) = last_update_time ew"
proof (induction cs arbitrary: ew)
  case Nil
  then show ?case by simp
next
  case (Cons c cs)
  then have "update_times [c] = []" and "update_times cs = []"
    by (cases c; simp)+
  with Cons.IH [of "EndpointWeight_step c ew"] EndpointWeight_step_frame [of c ew]
  show ?case by simp
qed

text \<open>
  C10. \<^verbatim>\<open>GetWeight\<close> leaves \<^verbatim>\<open>weight_\<close> and \<^verbatim>\<open>last_update_time_\<close>
  unchanged. It writes \<^verbatim>\<open>non_empty_since_\<close> in the expiration branch only, where
  it sets it to \<^verbatim>\<open>InfFuture\<close>. An endpoint keeps its stored weight through any
  further calls of \<^verbatim>\<open>GetWeight\<close> and \<^verbatim>\<open>ResetNonEmptySince\<close>, that is until
  a later \<^verbatim>\<open>MaybeUpdateWeight\<close>.
\<close>

theorem GetWeight_frame:
  "weight (fst (snd (GetWeight now expiration blackout n s ew))) = weight ew
   \<and> last_update_time (fst (snd (GetWeight now expiration blackout n s ew)))
       = last_update_time ew
   \<and> non_empty_since (fst (snd (GetWeight now expiration blackout n s ew)))
       = (if expiration \<le> Timestamp_minus now (last_update_time ew)
          then InfFuture else non_empty_since ew)
   \<and> (update_times cs = [] \<longrightarrow>
        weight (EndpointWeight_run cs
                 (fst (snd (GetWeight now expiration blackout n s ew))))
          = weight ew)"
proof -
  have "update_times cs = [] \<Longrightarrow>
        weight (EndpointWeight_run cs
                 (fst (snd (GetWeight now expiration blackout n s ew))))
          = weight (fst (snd (GetWeight now expiration blackout n s ew)))"
    using EndpointWeight_run_frame by blast
  then show ?thesis by (simp add: GetWeight_def)
qed

theorem GetWeight_frame_witness:
  "update_times [Call_GetWeight (Millis 900) (Milliseconds 100) Duration_Zero,
                 Call_ResetNonEmptySince] = []
   \<and> weight (EndpointWeight_run
        [Call_GetWeight (Millis 900) (Milliseconds 100) Duration_Zero, Call_ResetNonEmptySince]
        (fst (snd (GetWeight (Millis 200) (Milliseconds 100) (Milliseconds 10) 0 0
           \<lparr>weight = Finite 3, non_empty_since = Millis 0, last_update_time = Millis 50\<rparr>))))
       = Finite 3
   \<and> non_empty_since (fst (snd (GetWeight (Millis 200) (Milliseconds 100) (Milliseconds 10) 0 0
           \<lparr>weight = Finite 3, non_empty_since = Millis 0, last_update_time = Millis 50\<rparr>)))
       = InfFuture
   \<and> last_update_time (fst (snd (GetWeight (Millis 200) (Milliseconds 100) (Milliseconds 10) 0 0
           \<lparr>weight = Finite 3, non_empty_since = Millis 0, last_update_time = Millis 50\<rparr>)))
       = Millis 50"
  using GetWeight_frame [of "Millis 200" "Milliseconds 100" "Milliseconds 10" 0 0
      "\<lparr>weight = Finite 3, non_empty_since = Millis 0, last_update_time = Millis 50\<rparr>"
      "[Call_GetWeight (Millis 900) (Milliseconds 100) Duration_Zero, Call_ResetNonEmptySince]"]
  by simp

subsection \<open>MaybeUpdateWeight\<close>

text \<open>
  C2, as stated, fails in two ways. The claim gives the computed weight as
  \<open>qps / (utilization + (eps / qps) * penalty)\<close> whenever \<open>qps > 0\<close> and
  \<open>utilization > 0\<close>. Line 443 adds the penalty term only when \<open>eps > 0\<close> and the
  penalty factor is positive: with \<open>qps = 1\<close>, \<open>eps = - 1\<close>, \<open>utilization = 2\<close> and
  penalty factor 1 the code computes \<open>1 / 2\<close>, not \<open>1 / (2 - 1)\<close>. And the weight
  is a \<^verbatim>\<open>float\<close> (line 440): with \<open>qps = 1\<close>, \<open>eps = 0\<close> and
  \<open>utilization = 3\<close> the code computes \<open>11184811 / 33554432\<close>, the \<^verbatim>\<open>float\<close>
  nearest to the \<^verbatim>\<open>double\<close> nearest to \<open>1 / 3\<close>.
\<close>

theorem MaybeUpdateWeight_formula_counterexample:
  "\<not> (MaybeUpdateWeight_weight (Finite 1) (Finite (- 1)) (Finite 2) (Finite 1)
         = Finite (1 / (2 + (- 1) / 1 * 1)))
   \<and> MaybeUpdateWeight_weight (Finite 1) (Finite (- 1)) (Finite 2) (Finite 1) = Finite (1 / 2)
   \<and> \<not> (MaybeUpdateWeight_weight (Finite 1) (Finite 0) (Finite 3) (Finite 1)
         = Finite (1 / (3 + 0 / 1 * 1)))
   \<and> MaybeUpdateWeight_weight (Finite 1) (Finite 0) (Finite 3) (Finite 1)
       = Finite (11184811 / 33554432)"
  by (simp add: MaybeUpdateWeight_weight_def)

text \<open>
  C2, amended. When \<open>qps > 0\<close> and \<open>utilization > 0\<close> the computed weight is the
  value of \<open>qps / (utilization + p)\<close> evaluated in \<^verbatim>\<open>double\<close> arithmetic and
  converted to \<^verbatim>\<open>float\<close>, where \<open>p\<close> is \<open>(eps / qps) * penalty\<close> evaluated in
  \<^verbatim>\<open>double\<close> arithmetic when \<open>eps > 0\<close> and the penalty factor is positive, and
  \<open>p\<close> is 0 otherwise; for a finite \<open>qps\<close> and a finite \<open>utilization\<close> that is a
  \<^verbatim>\<open>double\<close>, without penalty, this is the twice rounded quotient. Otherwise the
  computed weight is 0. When the computed weight compares equal to 0 the call leaves the
  object unchanged. Otherwise (also for NaN) it sets \<^verbatim>\<open>non_empty_since_\<close> to now
  only if it was \<^verbatim>\<open>InfFuture\<close>, sets \<^verbatim>\<open>weight_\<close> to the computed value and
  \<^verbatim>\<open>last_update_time_\<close> to now.
\<close>

theorem MaybeUpdateWeight_guarded:
  "(fp_gt0 qps \<and> fp_gt0 utilization \<and> fp_gt0 eps \<and> fp_gt0 penalty \<longrightarrow>
      MaybeUpdateWeight_weight qps eps utilization penalty
        = float_of_double
            (double_div qps (double_add utilization (double_mul (double_div eps qps) penalty))))
   \<and> (fp_gt0 qps \<and> fp_gt0 utilization \<and> \<not> (fp_gt0 eps \<and> fp_gt0 penalty) \<longrightarrow>
      MaybeUpdateWeight_weight qps eps utilization penalty
        = float_of_double (double_div qps (double_add utilization (Finite 0))))
   \<and> (0 < q \<and> 0 < u \<and> round_double u = Finite u \<and> \<not> (fp_gt0 eps \<and> fp_gt0 penalty) \<longrightarrow>
      MaybeUpdateWeight_weight (Finite q) eps (Finite u) penalty
        = float_of_double (round_double (q / u)))
   \<and> (\<not> (fp_gt0 qps \<and> fp_gt0 utilization) \<longrightarrow>
      MaybeUpdateWeight_weight qps eps utilization penalty = Finite 0)
   \<and> (fp_eq0 (MaybeUpdateWeight_weight qps eps utilization penalty) \<longrightarrow>
      MaybeUpdateWeight now qps eps utilization penalty ew = ew)
   \<and> (\<not> fp_eq0 (MaybeUpdateWeight_weight qps eps utilization penalty) \<longrightarrow>
      MaybeUpdateWeight now qps eps utilization penalty ew
        = \<lparr>weight = MaybeUpdateWeight_weight qps eps utilization penalty,
           non_empty_since =
             (if non_empty_since ew = InfFuture then now else non_empty_since ew),
           last_update_time = now\<rparr>)"
  by (auto simp: MaybeUpdateWeight_weight_def MaybeUpdateWeight_def Let_def)

theorem MaybeUpdateWeight_guarded_witness:
  "MaybeUpdateWeight_weight (Finite 4) (Finite 2) (Finite 1) (Finite 2) = Finite 2
   \<and> MaybeUpdateWeight_weight (Finite 1) (Finite (- 1)) (Finite 2) (Finite 1) = Finite (1 / 2)
   \<and> round_double 3 = Finite 3
   \<and> MaybeUpdateWeight_weight (Finite 1) (Finite 0) (Finite 3) (Finite 1)
       = Finite (11184811 / 33554432)
   \<and> MaybeUpdateWeight_weight (Finite 0) (Finite 1) (Finite 1) (Finite 1) = Finite 0
   \<and> MaybeUpdateWeight_weight (Finite (1 / 2 ^ 200)) (Finite 0) (Finite 1) (Finite 1) = Finite 0
   \<and> MaybeUpdateWeight (Millis 7) (Finite (1 / 2 ^ 200)) (Finite 0) (Finite 1) (Finite 1)
        \<lparr>weight = Finite 3, non_empty_since = Millis 0, last_update_time = Millis 5\<rparr>
       = \<lparr>weight = Finite 3, non_empty_since = Millis 0, last_update_time = Millis 5\<rparr>
   \<and> MaybeUpdateWeight (Millis 7) (Finite 4) (Finite 2) (Finite 1) (Finite 2) EndpointWeight_init
       = \<lparr>weight = Finite 2, non_empty_since = Millis 7, last_update_time = Millis 7\<rparr>
   \<and> MaybeUpdateWeight (Millis 7) (Finite 4) (Finite 2) (Finite 1) (Finite 2)
         \<lparr>weight = Finite 3, non_empty_since = Millis 0, last_update_time = Millis 5\<rparr>
       = \<lparr>weight = Finite 2, non_empty_since = Millis 0, last_update_time = Millis 7\<rparr>
   \<and> MaybeUpdateWeight (Millis 7) PlusInf (Finite 0) PlusInf (Finite 1)
         \<lparr>weight = Finite 3, non_empty_since = Millis 0, last_update_time = Millis 5\<rparr>
       = \<lparr>weight = NaN, non_empty_since = Millis 0, last_update_time = Millis 7\<rparr>"
  using MaybeUpdateWeight_guarded [of "Finite 4" "Finite 1" "Finite 2" "Finite 2" 1 3
      "Millis 7" EndpointWeight_init]
    MaybeUpdateWeight_guarded [of "Finite 4" "Finite 1" "Finite 2" "Finite 2" 1 3 "Millis 7"
      "\<lparr>weight = Finite 3, non_empty_since = Millis 0, last_update_time = Millis 5\<rparr>"]
    MaybeUpdateWeight_guarded [of "Finite 1" "Finite 2" "Finite (- 1)" "Finite 1" 1 3
      "Millis 7" EndpointWeight_init]
    MaybeUpdateWeight_guarded [of "Finite 1" "Finite 3" "Finite 0" "Finite 1" 1 3
      "Millis 7" EndpointWeight_init]
    MaybeUpdateWeight_guarded [of "Finite (1 / 2 ^ 200)" "Finite 1" "Finite 0" "Finite 1" 1 3
      "Millis 7"
      "\<lparr>weight = Finite 3, non_empty_since = Millis 0, last_update_time = Millis 5\<rparr>"]
    MaybeUpdateWeight_guarded [of PlusInf PlusInf "Finite 0" "Finite 1" 1 3 "Millis 7"
      "\<lparr>weight = Finite 3, non_empty_since = Millis 0, last_update_time = Millis 5\<rparr>"]
    MaybeUpdateWeight_guarded [of "Finite 0" "Finite 1" "Finite 1" "Finite 1" 1 3 "Millis 7"
      EndpointWeight_init]
  by (simp add: EndpointWeight_init_def MaybeUpdateWeight_def MaybeUpdateWeight_weight_def)

subsection \<open>The invariant of an EndpointWeight\<close>

text \<open>
  C3, as stated, fails in three ways. \<^verbatim>\<open>ResetNonEmptySince\<close> (and the expiration
  branch of \<^verbatim>\<open>GetWeight\<close>) sets \<^verbatim>\<open>non_empty_since_\<close> to \<^verbatim>\<open>InfFuture\<close> and
  keeps the positive weight and the finite \<^verbatim>\<open>last_update_time_\<close>: after one update
  at time 10 and one reset the weight is 1 and \<^verbatim>\<open>non_empty_since_\<close> is after
  \<^verbatim>\<open>last_update_time_\<close>. An update with \<open>qps\<close> and \<open>utilization\<close> both
  \<open>+\<infinity>\<close> computes NaN, which is not equal to 0 and is stored, and NaN is not
  \<open>\<ge> 0\<close>. And the clock of \<^verbatim>\<open>MaybeUpdateWeight\<close> is read at line 456, before the
  mutex of line 458: an update that read the clock at time 5 and writes after one that
  read it at time 10 puts \<^verbatim>\<open>last_update_time_\<close> before \<^verbatim>\<open>non_empty_since_\<close>.
\<close>

theorem EndpointWeight_invariant_counterexample:
  "\<not> spec_invariant
        (EndpointWeight_run
           [Call_MaybeUpdateWeight (Millis 10) (Finite 1) (Finite 0) (Finite 1) (Finite 0),
            Call_ResetNonEmptySince]
           EndpointWeight_init)
   \<and> \<not> spec_invariant
        (EndpointWeight_run
           [Call_MaybeUpdateWeight (Millis 10) PlusInf (Finite 0) PlusInf (Finite 0)]
           EndpointWeight_init)
   \<and> \<not> spec_invariant
        (EndpointWeight_run
           [Call_MaybeUpdateWeight (Millis 10) (Finite 1) (Finite 0) (Finite 1) (Finite 0),
            Call_MaybeUpdateWeight (Millis 5) (Finite 1) (Finite 0) (Finite 1) (Finite 0)]
           EndpointWeight_init)"
  by (simp add: spec_invariant_def MaybeUpdateWeight_def MaybeUpdateWeight_weight_def
      ResetNonEmptySince_def EndpointWeight_init_def)

lemma EndpointWeight_step_not_negative:
  "fp_not_negative (weight ew) \<Longrightarrow> fp_not_negative (weight (EndpointWeight_step c ew))"
proof (cases c)
  case (Call_MaybeUpdateWeight now qps eps u p)
  assume "fp_not_negative (weight ew)"
  then show ?thesis
    using Call_MaybeUpdateWeight MaybeUpdateWeight_weight_not_negative [of qps eps u p]
    by (simp add: MaybeUpdateWeight_def Let_def)
next
  case (Call_GetWeight now e b)
  assume "fp_not_negative (weight ew)"
  then show ?thesis using Call_GetWeight by (simp add: GetWeight_def)
next
  case Call_ResetNonEmptySince
  assume "fp_not_negative (weight ew)"
  then show ?thesis using Call_ResetNonEmptySince by (simp add: ResetNonEmptySince_def)
qed

lemma EndpointWeight_run_not_negative:
  "fp_not_negative (weight ew) \<Longrightarrow> fp_not_negative (weight (EndpointWeight_run cs ew))"
  by (induction cs arbitrary: ew) (simp_all add: EndpointWeight_step_not_negative)

lemma EndpointWeight_inv_step:
  assumes "EndpointWeight_inv ew (update_times (c # cs))" "sorted (update_times (c # cs))"
  shows "EndpointWeight_inv (EndpointWeight_step c ew) (update_times cs)"
proof (cases c)
  case (Call_MaybeUpdateWeight now qps eps u p)
  have later: "\<forall>t \<in> set (update_times cs). now \<le> t"
    using assms(2) Call_MaybeUpdateWeight by simp
  have nes: "non_empty_since ew \<noteq> InfFuture \<Longrightarrow> non_empty_since ew \<le> now"
  proof -
    assume ne: "non_empty_since ew \<noteq> InfFuture"
    then have "non_empty_since ew \<le> last_update_time ew" "last_update_time ew \<le> now"
      using assms(1) Call_MaybeUpdateWeight by (auto simp: EndpointWeight_inv_def)
    then show ?thesis by (rule order_trans)
  qed
  show ?thesis using later nes assms(1) Call_MaybeUpdateWeight
    by (auto simp: MaybeUpdateWeight_def EndpointWeight_inv_def Let_def)
next
  case (Call_GetWeight now e b)
  then show ?thesis using assms
    by (auto simp: GetWeight_def EndpointWeight_inv_def)
next
  case Call_ResetNonEmptySince
  then show ?thesis using assms
    by (auto simp: ResetNonEmptySince_def EndpointWeight_inv_def)
qed

lemma sorted_update_times_tl:
  "sorted (update_times (c # cs)) \<Longrightarrow> sorted (update_times cs)"
  by (cases c) simp_all

lemma EndpointWeight_inv_run:
  "EndpointWeight_inv ew (update_times cs) \<Longrightarrow> sorted (update_times cs) \<Longrightarrow>
     EndpointWeight_inv (EndpointWeight_run cs ew) []"
proof (induction cs arbitrary: ew)
  case Nil
  then show ?case by simp
next
  case (Cons c cs)
  have "EndpointWeight_inv (EndpointWeight_step c ew) (update_times cs)"
    using Cons.prems by (rule EndpointWeight_inv_step)
  moreover have "sorted (update_times cs)"
    using Cons.prems(2) by (rule sorted_update_times_tl)
  ultimately show ?case using Cons.IH by simp
qed

text \<open>
  C3, amended. For every state reached from the initial one by a sequence of
  \<^verbatim>\<open>MaybeUpdateWeight\<close>, \<^verbatim>\<open>GetWeight\<close> and \<^verbatim>\<open>ResetNonEmptySince\<close>
  calls: the weight is \<open>\<ge> 0\<close> or NaN; and, when the clock readings of the
  \<^verbatim>\<open>MaybeUpdateWeight\<close> calls do not decrease in the order of the calls, whenever
  the weight is positive \<^verbatim>\<open>non_empty_since_\<close> is \<^verbatim>\<open>InfFuture\<close> or at most
  \<^verbatim>\<open>last_update_time_\<close>.
\<close>

theorem EndpointWeight_invariant:
  "(fp_ge0 (weight (EndpointWeight_run cs EndpointWeight_init))
      \<or> weight (EndpointWeight_run cs EndpointWeight_init) = NaN)
   \<and> (sorted (update_times cs)
        \<and> fp_gt0 (weight (EndpointWeight_run cs EndpointWeight_init)) \<longrightarrow>
          non_empty_since (EndpointWeight_run cs EndpointWeight_init) = InfFuture
          \<or> non_empty_since (EndpointWeight_run cs EndpointWeight_init)
              \<le> last_update_time (EndpointWeight_run cs EndpointWeight_init))"
proof -
  have "fp_not_negative (weight EndpointWeight_init)"
    by (simp add: fp_not_negative_def EndpointWeight_init_def)
  then have "fp_not_negative (weight (EndpointWeight_run cs EndpointWeight_init))"
    by (rule EndpointWeight_run_not_negative)
  then have first: "fp_ge0 (weight (EndpointWeight_run cs EndpointWeight_init))
      \<or> weight (EndpointWeight_run cs EndpointWeight_init) = NaN"
    by (simp add: fp_not_negative_def)
  have second: "non_empty_since (EndpointWeight_run cs EndpointWeight_init) = InfFuture
          \<or> non_empty_since (EndpointWeight_run cs EndpointWeight_init)
              \<le> last_update_time (EndpointWeight_run cs EndpointWeight_init)"
    if "sorted (update_times cs)"
  proof -
    have "EndpointWeight_inv EndpointWeight_init (update_times cs)"
      by (simp add: EndpointWeight_inv_def EndpointWeight_init_def)
    then have "EndpointWeight_inv (EndpointWeight_run cs EndpointWeight_init) []"
      using that by (rule EndpointWeight_inv_run)
    then show ?thesis by (auto simp: EndpointWeight_inv_def)
  qed
  show ?thesis using first second by blast
qed

theorem EndpointWeight_invariant_witness:
  "sorted (update_times
            [Call_MaybeUpdateWeight (Millis 10) (Finite 1) (Finite 0) (Finite 1) (Finite 0),
             Call_GetWeight (Millis 20) (Milliseconds 100) (Milliseconds 5),
             Call_MaybeUpdateWeight (Millis 30) (Finite 4) (Finite 2) (Finite 1) (Finite 2)])
   \<and> EndpointWeight_run
            [Call_MaybeUpdateWeight (Millis 10) (Finite 1) (Finite 0) (Finite 1) (Finite 0),
             Call_GetWeight (Millis 20) (Milliseconds 100) (Milliseconds 5),
             Call_MaybeUpdateWeight (Millis 30) (Finite 4) (Finite 2) (Finite 1) (Finite 2)]
            EndpointWeight_init
       = \<lparr>weight = Finite 2, non_empty_since = Millis 10, last_update_time = Millis 30\<rparr>
   \<and> fp_gt0 (Finite 2) \<and> fp_ge0 (Finite 2) \<and> Millis 10 \<le> Millis 30
   \<and> weight (EndpointWeight_run
            [Call_MaybeUpdateWeight (Millis 10) PlusInf (Finite 0) PlusInf (Finite 0)]
            EndpointWeight_init) = NaN"
proof -
  have s: "sorted (update_times
            [Call_MaybeUpdateWeight (Millis 10) (Finite 1) (Finite 0) (Finite 1) (Finite 0),
             Call_GetWeight (Millis 20) (Milliseconds 100) (Milliseconds 5),
             Call_MaybeUpdateWeight (Millis 30) (Finite 4) (Finite 2) (Finite 1) (Finite 2)])"
    by simp
  show ?thesis
    using s
      EndpointWeight_invariant [of
        "[Call_MaybeUpdateWeight (Millis 10) (Finite 1) (Finite 0) (Finite 1) (Finite 0),
          Call_GetWeight (Millis 20) (Milliseconds 100) (Milliseconds 5),
          Call_MaybeUpdateWeight (Millis 30) (Finite 4) (Finite 2) (Finite 1) (Finite 2)]"]
      EndpointWeight_invariant [of
        "[Call_MaybeUpdateWeight (Millis 10) PlusInf (Finite 0) PlusInf (Finite 0)]"]
    by (simp add: MaybeUpdateWeight_def MaybeUpdateWeight_weight_def GetWeight_def
        EndpointWeight_init_def Duration_Zero_def)
qed

subsection \<open>Unfolding the example states\<close>


lemmas ex_defs = ex_env_def ex_weights_def ex_active_def ex_pending_def ex_wrr_def
  ex_unseen_def ex_failing_def ex_first_def ex_late_env_def ex_picker_def ex_recorded_def
  ex_error_args_def
  ex_empty_args_def ex_emptied_def
  WeightedRoundRobinConfig_default_def EndpointWeight_init_def

lemmas run_defs = OnStateUpdate_def UpdateStateCountersLocked_def
  MaybeUpdateAggregatedConnectivityStateLocked_def Picker_new_def
  BuildSchedulerAndStartTimerLocked_def Picker_snapshot_def GetWeight_def
  AllEndpointsSeenInitialState_def EndpointList_size_def ReportTransientFailure_def
  ResetNonEmptySince_def OkStatus_def ok_def Duration_Zero_def
  UnavailableError_def Status_ToString_def

subsection \<open>Picker\<close>

text \<open>
  C8. For a picker with a non-empty snapshot, \<^verbatim>\<open>PickIndex\<close> returns an index below
  the size of the snapshot, so the \<^verbatim>\<open>CHECK\<close> of \<^verbatim>\<open>Pick\<close> does not fail. In
  the round-robin fallback the index is the old value of \<^verbatim>\<open>last_picked_index_\<close>
  modulo the size, and the counter is incremented (wrapping at \<open>2 ^ 64\<close>). With a
  scheduler installed the bound is the contract of \<^verbatim>\<open>StaticStrideScheduler::Pick\<close>
  given by the spec, taken as the second hypothesis.
\<close>


theorem PickIndex_in_range:
  assumes "picker_endpoints p \<noteq> []"
    and "\<forall>sch. scheduler p = Some sch \<longrightarrow> fst (sched_Pick sch st) < length (picker_endpoints p)"
  shows "\<exists>i p1 st1. PickIndex sched_Pick p st = Inr (i, p1, st1)
           \<and> i < length (picker_endpoints p)
           \<and> (scheduler p = None \<longrightarrow>
                i = unat (last_picked_index p) mod length (picker_endpoints p)
                \<and> last_picked_index p1 = last_picked_index p + 1)
           \<and> Pick sched_Pick child_Pick p st args \<noteq> Inl CheckFailed"
proof (cases "scheduler p")
  case None
  then show ?thesis using assms(1)
    by (auto simp: PickIndex_def Pick_def Let_def split: option.splits)
next
  case (Some sch)
  obtain i st1 where pk: "sched_Pick sch st = (i, st1)" by (cases "sched_Pick sch st")
  with assms(2) Some have "i < length (picker_endpoints p)" by auto
  with Some pk show ?thesis
    by (auto simp: PickIndex_def Pick_def Let_def split: option.splits)
qed

theorem PickIndex_in_range_witness:
  "picker_endpoints ex_picker \<noteq> []
   \<and> PickIndex (\<lambda>(sch::nat) st. (sch mod 3, st + 1)) ex_picker 5
       = Inr (1, ex_picker\<lparr>last_picked_index := 5\<rparr>, 5)
   \<and> PickIndex (\<lambda>(sch::nat) st. (sch mod 3, st + 1))
         (ex_picker\<lparr>last_picked_index := 18446744073709551615\<rparr>) 5
       = Inr (0, ex_picker\<lparr>last_picked_index := 0\<rparr>, 5)
   \<and> PickIndex (\<lambda>(sch::nat) st. (sch mod 3, st + 1)) (ex_picker\<lparr>scheduler := Some 7\<rparr>) 5
       = Inr (1, ex_picker\<lparr>scheduler := Some 7\<rparr>, 6)
   \<and> Pick (\<lambda>(sch::nat) st. (sch mod 3, st + 1)) (\<lambda>cp (a::unit). Complete cp None)
         ex_picker 5 () \<noteq> Inl CheckFailed"
  using PickIndex_in_range [of ex_picker "\<lambda>(sch::nat) st. (sch mod 3, st + 1)" 5
      "\<lambda>cp (a::unit). Complete cp None" "()"]
    PickIndex_in_range [of "ex_picker\<lparr>last_picked_index := 18446744073709551615\<rparr>"
      "\<lambda>(sch::nat) st. (sch mod 3, st + 1)" 5 "\<lambda>cp (a::unit). Complete cp None" "()"]
    PickIndex_in_range [of "ex_picker\<lparr>scheduler := Some 7\<rparr>"
      "\<lambda>(sch::nat) st. (sch mod 3, st + 1)" 5 "\<lambda>cp (a::unit). Complete cp None" "()"]
  by (simp add: PickIndex_def ex_picker_def)

subsection \<open>Aggregation\<close>


lemma Aggregated_pending:
  assumes "latest_pending_endpoint_list wrr = Some this"
    and "endpoint_list wrr = Some a" and "a \<noteq> this"
  shows "\<exists>wrr' calls.
     MaybeUpdateAggregatedConnectivityStateLocked env this status wrr = Inr (wrr', calls)
     \<and> (endpoint_list wrr' = Some this) = promotes wrr a this
     \<and> (promotes wrr a this \<longrightarrow> latest_pending_endpoint_list wrr' = None)
     \<and> (\<not> promotes wrr a this \<longrightarrow> wrr' = wrr \<and> calls = [])
     \<and> num_ready (list_heap wrr' a) = num_ready (list_heap wrr a)
     \<and> num_ready (list_heap wrr' this) = num_ready (list_heap wrr this)
     \<and> num_transient_failure (list_heap wrr' this) = num_transient_failure (list_heap wrr this)
     \<and> endpoints (list_heap wrr' this) = endpoints (list_heap wrr this)"
proof (cases "promotes wrr a this")
  case False
  then show ?thesis using assms
    by (auto simp: MaybeUpdateAggregatedConnectivityStateLocked_def promotes_def Let_def)
next
  case True
  then have p: "num_ready (list_heap wrr a) = 0
     \<or> (0 < num_ready (list_heap wrr this) \<and> AllEndpointsSeenInitialState (list_heap wrr this))
     \<or> num_transient_failure (list_heap wrr this) = EndpointList_size (list_heap wrr this)"
    by (simp add: promotes_def)
  obtain pk h where pn: "Picker_new env
       (wrr\<lparr>endpoint_list := Some this, latest_pending_endpoint_list := None\<rparr>)
       (list_heap wrr this) = (pk, h)"
    by (cases "Picker_new env
       (wrr\<lparr>endpoint_list := Some this, latest_pending_endpoint_list := None\<rparr>)
       (list_heap wrr this)")
  show ?thesis using assms True p pn
    by (simp add: MaybeUpdateAggregatedConnectivityStateLocked_def Let_def
        ReportTransientFailure_def)
qed


lemma Picker_new_slots [simp]:
  "Picker_new env (wrr\<lparr>endpoint_list := x, latest_pending_endpoint_list := y\<rparr>) l
     = Picker_new env wrr l"
  by (simp add: Picker_new_def)

lemma BuildScheduler_endpoints:
  "picker_endpoints (fst (BuildSchedulerAndStartTimerLocked env h p)) = picker_endpoints p"
  by (simp add: BuildSchedulerAndStartTimerLocked_def split: prod.splits)

lemma Picker_new_endpoints:
  "picker_endpoints (fst (Picker_new env wrr l)) = Picker_snapshot l"
proof -
  obtain p h n s where b: "BuildSchedulerAndStartTimerLocked env (weight_heap wrr)
             \<lparr>picker_config = config wrr, picker_endpoints = Picker_snapshot l,
              scheduler = None, last_picked_index = env_Uniform env\<rparr> = (p, h, n, s)"
    using prod_cases4 by blast
  from BuildScheduler_endpoints [of env "weight_heap wrr"
      "\<lparr>picker_config = config wrr, picker_endpoints = Picker_snapshot l,
              scheduler = None, last_picked_index = env_Uniform env\<rparr>"] b
  show ?thesis by (simp add: Picker_new_def)
qed

text \<open>The swap of lines 936-947 alone.\<close>

lemma Aggregated_cases:
  assumes "MaybeUpdateAggregatedConnectivityStateLocked env this status wrr = Inr (wrr', calls)"
  shows "\<exists>wrr1. (wrr1 = wrr \<or> wrr1 = wrr\<lparr>endpoint_list := Some this,
                                         latest_pending_endpoint_list := None\<rparr>)
     \<and> (let l = list_heap wrr this in
          if endpoint_list wrr1 \<noteq> Some this then wrr' = wrr1 \<and> calls = []
          else if 0 < num_ready l then
            wrr' = wrr1\<lparr>weight_heap := snd (Picker_new env wrr l)\<rparr>
            \<and> calls = [UpdateState GRPC_CHANNEL_READY OkStatus
                         (WrrPicker (fst (Picker_new env wrr l)))]
          else if 0 < num_connecting l then
            wrr' = wrr1 \<and> calls = [UpdateState GRPC_CHANNEL_CONNECTING OkStatus QueuePicker]
          else if num_transient_failure l = EndpointList_size l then
            (let l1 = (if \<not> ok status then
                         l\<lparr>last_failure :=
                             UnavailableError
                               (''connections to all backends failing; last error: ''
                                  @ Status_ToString status)\<rparr>
                       else l)
             in wrr' = wrr1\<lparr>list_heap := (list_heap wrr1)(this := l1)\<rparr>
                \<and> calls = ReportTransientFailure (last_failure l1))
          else wrr' = wrr1 \<and> calls = [])"
proof -
  let ?sw = "if latest_pending_endpoint_list wrr = Some this then
              (case endpoint_list wrr of
                 None \<Rightarrow> Inl NullPointer
               | Some a \<Rightarrow>
                   if num_ready (list_heap wrr a) = 0
                      \<or> (num_ready (list_heap wrr this) > 0
                          \<and> AllEndpointsSeenInitialState (list_heap wrr this))
                      \<or> num_transient_failure (list_heap wrr this)
                          = EndpointList_size (list_heap wrr this)
                   then Inr (wrr\<lparr>endpoint_list := latest_pending_endpoint_list wrr,
                                 latest_pending_endpoint_list := None\<rparr>)
                   else Inr wrr)
            else Inr wrr"
  obtain wrr1 where sw: "?sw = Inr wrr1"
    using assms
    by (cases ?sw) (simp_all add: MaybeUpdateAggregatedConnectivityStateLocked_def Let_def)
  have w1: "wrr1 = wrr \<or> wrr1 = wrr\<lparr>endpoint_list := Some this,
                                         latest_pending_endpoint_list := None\<rparr>"
    using sw by (auto split: if_splits option.splits)
  have "list_heap wrr1 = list_heap wrr" and "Picker_new env wrr1 = Picker_new env wrr"
    using w1 by auto
  then show ?thesis using assms sw w1
    apply (intro exI [of _ wrr1])
    apply (simp only: MaybeUpdateAggregatedConnectivityStateLocked_def Let_def sw sum.case)
    apply (auto simp: Let_def split: if_splits prod.splits)
    done
qed



text \<open>
  C4. In an aggregation after which the list is the active one, the first matching rule
  wins. With a READY endpoint the policy publishes READY with a picker built over the
  READY endpoints of this list. Otherwise, with a CONNECTING endpoint it publishes
  CONNECTING with a queueing picker. Otherwise, when \<^verbatim>\<open>num_transient_failure_\<close>
  equals the size, it publishes TRANSIENT_FAILURE with a failing picker that carries
  \<^verbatim>\<open>last_failure_\<close>; a status that is not OK is first recorded in
  \<^verbatim>\<open>last_failure_\<close> (as an UNAVAILABLE status whose message quotes it), an OK
  status leaves \<^verbatim>\<open>last_failure_\<close> as it was, and any further aggregation with an
  OK status publishes the same failure again. When no rule matches nothing is published.
\<close>

theorem Aggregated_first_match:
  assumes "MaybeUpdateAggregatedConnectivityStateLocked env this status wrr = Inr (wrr', calls)"
    and "endpoint_list wrr' = Some this"
  shows
   "(0 < num_ready (list_heap wrr this) \<longrightarrow>
       calls = [UpdateState GRPC_CHANNEL_READY OkStatus
                  (WrrPicker (fst (Picker_new env wrr (list_heap wrr this))))]
       \<and> picker_endpoints (fst (Picker_new env wrr (list_heap wrr this)))
           = Picker_snapshot (list_heap wrr this))
    \<and> (num_ready (list_heap wrr this) = 0 \<and> 0 < num_connecting (list_heap wrr this) \<longrightarrow>
       calls = [UpdateState GRPC_CHANNEL_CONNECTING OkStatus QueuePicker])
    \<and> (num_ready (list_heap wrr this) = 0 \<and> num_connecting (list_heap wrr this) = 0
        \<and> num_transient_failure (list_heap wrr this) = EndpointList_size (list_heap wrr this) \<longrightarrow>
       last_failure (list_heap wrr' this)
         = (if ok status then last_failure (list_heap wrr this)
            else UnavailableError (''connections to all backends failing; last error: ''
                                     @ Status_ToString status))
       \<and> calls = [UpdateState GRPC_CHANNEL_TRANSIENT_FAILURE (last_failure (list_heap wrr' this))
                    (TransientFailurePicker (last_failure (list_heap wrr' this)))]
       \<and> (\<forall>env2 status2. ok status2 \<longrightarrow>
             (\<exists>wrr2. MaybeUpdateAggregatedConnectivityStateLocked env2 this status2 wrr'
                        = Inr (wrr2, calls)
                \<and> last_failure (list_heap wrr2 this) = last_failure (list_heap wrr' this))))
    \<and> (num_ready (list_heap wrr this) = 0 \<and> num_connecting (list_heap wrr this) = 0
        \<and> num_transient_failure (list_heap wrr this) \<noteq> EndpointList_size (list_heap wrr this) \<longrightarrow>
       calls = [])"
proof -
  let ?l = "list_heap wrr this"
  from Aggregated_cases [OF assms(1)] obtain wrr1 where
    w1: "wrr1 = wrr \<or> wrr1 = wrr\<lparr>endpoint_list := Some this,
                                         latest_pending_endpoint_list := None\<rparr>"
    and r: "if endpoint_list wrr1 \<noteq> Some this then wrr' = wrr1 \<and> calls = []
          else if 0 < num_ready ?l then
            wrr' = wrr1\<lparr>weight_heap := snd (Picker_new env wrr ?l)\<rparr>
            \<and> calls = [UpdateState GRPC_CHANNEL_READY OkStatus
                         (WrrPicker (fst (Picker_new env wrr ?l)))]
          else if 0 < num_connecting ?l then
            wrr' = wrr1 \<and> calls = [UpdateState GRPC_CHANNEL_CONNECTING OkStatus QueuePicker]
          else if num_transient_failure ?l = EndpointList_size ?l then
            (let l1 = (if \<not> ok status then
                         ?l\<lparr>last_failure :=
                             UnavailableError
                               (''connections to all backends failing; last error: ''
                                  @ Status_ToString status)\<rparr>
                       else ?l)
             in wrr' = wrr1\<lparr>list_heap := (list_heap wrr1)(this := l1)\<rparr>
                \<and> calls = ReportTransientFailure (last_failure l1))
          else wrr' = wrr1 \<and> calls = []"
    by (auto simp: Let_def)
  have act: "endpoint_list wrr1 = Some this"
    using r assms(2) by (auto simp: Let_def split: if_splits)
  have ready: "0 < num_ready ?l \<Longrightarrow>
       calls = [UpdateState GRPC_CHANNEL_READY OkStatus (WrrPicker (fst (Picker_new env wrr ?l)))]"
    using r act by simp
  have conn: "num_ready ?l = 0 \<Longrightarrow> 0 < num_connecting ?l \<Longrightarrow>
       calls = [UpdateState GRPC_CHANNEL_CONNECTING OkStatus QueuePicker]"
    using r act by simp
  have none: "num_ready ?l = 0 \<Longrightarrow> num_connecting ?l = 0
       \<Longrightarrow> num_transient_failure ?l \<noteq> EndpointList_size ?l \<Longrightarrow> calls = []"
    using r act by simp
  have tf: "last_failure (list_heap wrr' this)
         = (if ok status then last_failure ?l
            else UnavailableError (''connections to all backends failing; last error: ''
                                     @ Status_ToString status))
       \<and> calls = [UpdateState GRPC_CHANNEL_TRANSIENT_FAILURE (last_failure (list_heap wrr' this))
                    (TransientFailurePicker (last_failure (list_heap wrr' this)))]
       \<and> (\<forall>env2 status2. ok status2 \<longrightarrow>
             (\<exists>wrr2. MaybeUpdateAggregatedConnectivityStateLocked env2 this status2 wrr'
                        = Inr (wrr2, calls)
                \<and> last_failure (list_heap wrr2 this) = last_failure (list_heap wrr' this)))"
    if c: "num_ready ?l = 0" "num_connecting ?l = 0"
          "num_transient_failure ?l = EndpointList_size ?l"
  proof -
    define l1 where "l1 = (if \<not> ok status then
                         ?l\<lparr>last_failure :=
                             UnavailableError
                               (''connections to all backends failing; last error: ''
                                  @ Status_ToString status)\<rparr>
                       else ?l)"
    have w': "wrr' = wrr1\<lparr>list_heap := (list_heap wrr1)(this := l1)\<rparr>"
      and cs: "calls = ReportTransientFailure (last_failure l1)"
      using r act c by (simp_all add: Let_def l1_def)
    have l1c: "num_ready l1 = 0" "num_connecting l1 = 0"
      "num_transient_failure l1 = EndpointList_size l1"
      using c by (simp_all add: l1_def EndpointList_size_def)
    have h': "list_heap wrr' this = l1" using w' by simp
    have a': "endpoint_list wrr' = Some this" by (rule assms(2))
    have second: "\<exists>wrr2. MaybeUpdateAggregatedConnectivityStateLocked env2 this status2 wrr'
                        = Inr (wrr2, calls)
                \<and> last_failure (list_heap wrr2 this) = last_failure (list_heap wrr' this)"
      if "ok status2" for env2 :: "'a env" and status2
      using that h' a' l1c cs
      by (simp add: MaybeUpdateAggregatedConnectivityStateLocked_def Let_def
          EndpointList_size_def)
    show ?thesis using h' cs second
      by (simp add: l1_def ReportTransientFailure_def)
  qed
  show ?thesis using ready conn none tf Picker_new_endpoints by blast
qed

theorem Aggregated_first_match_witness:
  "MaybeUpdateAggregatedConnectivityStateLocked ex_env 0 (Status kUnavailable ''refused'')
       ex_failing
     = Inr (ex_failing\<lparr>list_heap := (list_heap ex_failing)
                (0 := (list_heap ex_failing 0)\<lparr>last_failure := ex_recorded\<rparr>)\<rparr>,
            [UpdateState GRPC_CHANNEL_TRANSIENT_FAILURE ex_recorded
               (TransientFailurePicker ex_recorded)])
   \<and> endpoint_list (ex_failing\<lparr>list_heap := (list_heap ex_failing)
                (0 := (list_heap ex_failing 0)\<lparr>last_failure := ex_recorded\<rparr>)\<rparr>) = Some 0
   \<and> num_transient_failure (list_heap ex_failing 0) = EndpointList_size (list_heap ex_failing 0)
   \<and> ok OkStatus
   \<and> MaybeUpdateAggregatedConnectivityStateLocked ex_env 0 OkStatus
         (ex_failing\<lparr>list_heap := (list_heap ex_failing)
                (0 := (list_heap ex_failing 0)\<lparr>last_failure := ex_recorded\<rparr>)\<rparr>)
     = Inr (ex_failing\<lparr>list_heap := (list_heap ex_failing)
                (0 := (list_heap ex_failing 0)\<lparr>last_failure := ex_recorded\<rparr>)\<rparr>,
            [UpdateState GRPC_CHANNEL_TRANSIENT_FAILURE ex_recorded
               (TransientFailurePicker ex_recorded)])
   \<and> MaybeUpdateAggregatedConnectivityStateLocked ex_env 0 OkStatus ex_wrr
     = Inr (ex_wrr,
            [UpdateState GRPC_CHANNEL_READY OkStatus
               (WrrPicker
                  \<lparr>picker_config = WeightedRoundRobinConfig_default,
                   picker_endpoints = [\<lparr>info_picker = Some 10, info_weight = 0\<rparr>],
                   scheduler = None, last_picked_index = 4\<rparr>)])
   \<and> endpoint_list ex_wrr = Some 0
   \<and> 0 < num_ready (list_heap ex_wrr 0)"
proof -
  let ?W = "ex_failing\<lparr>list_heap := (list_heap ex_failing)
                (0 := (list_heap ex_failing 0)\<lparr>last_failure := ex_recorded\<rparr>)\<rparr>"
  have e1: "MaybeUpdateAggregatedConnectivityStateLocked ex_env 0
       (Status kUnavailable ''refused'') ex_failing
     = Inr (?W, [UpdateState GRPC_CHANNEL_TRANSIENT_FAILURE ex_recorded
               (TransientFailurePicker ex_recorded)])"
    by (simp add: ex_defs run_defs Let_def)
  have a1: "endpoint_list ?W = Some 0"
    by (simp add: ex_defs)
  have e2: "MaybeUpdateAggregatedConnectivityStateLocked ex_env 0 OkStatus ex_wrr
     = Inr (ex_wrr,
            [UpdateState GRPC_CHANNEL_READY OkStatus
               (WrrPicker
                  \<lparr>picker_config = WeightedRoundRobinConfig_default,
                   picker_endpoints = [\<lparr>info_picker = Some 10, info_weight = 0\<rparr>],
                   scheduler = None, last_picked_index = 4\<rparr>)])"
    by (simp add: ex_defs run_defs Let_def)
  have a2: "endpoint_list ex_wrr = Some 0"
    by (simp add: ex_defs)
  show ?thesis
    using e1 a1 e2 a2 Aggregated_first_match [OF e1 a1] Aggregated_first_match [OF e2 a2]
    by (simp add: ex_defs run_defs Let_def)
qed



lemma GetWeight_object:
  "GetWeight now e b n s ew = (w, ew', n', s') \<Longrightarrow>
     ew' = ew \<or> (ew' = ew\<lparr>non_empty_since := InfFuture\<rparr>
                 \<and> e \<le> Timestamp_minus now (last_update_time ew))"
  by (auto simp: GetWeight_def split: if_splits)

lemma GetWeights_heap:
  "GetWeights now e b es h n s = (ws, h', n', s') \<Longrightarrow>
     h' p = h p \<or> (h' p = (h p)\<lparr>non_empty_since := InfFuture\<rparr>
                    \<and> e \<le> Timestamp_minus now (last_update_time (h p)))"
proof (induction es arbitrary: h n s ws h' n' s')
  case Nil
  then show ?case by simp
next
  case (Cons x es)
  obtain w ew n1 s1 where g: "GetWeight now e b n s (h (info_weight x)) = (w, ew, n1, s1)"
    using prod_cases4 by blast
  obtain ws2 h2 n2 s2 where
    r: "GetWeights now e b es (h(info_weight x := ew)) n1 s1 = (ws2, h2, n2, s2)"
    using prod_cases4 by blast
  have h2: "h' = h2" using Cons.prems g r by simp
  note ih = Cons.IH [OF r]
  note ob = GetWeight_object [OF g]
  show ?case
  proof (cases "p = info_weight x")
    case False
    then show ?thesis using ih h2 by simp
  next
    case True
    then show ?thesis using ih ob h2 by auto
  qed
qed

lemma Picker_new_heap:
  "snd (Picker_new env wrr l) p = weight_heap wrr p
   \<or> (snd (Picker_new env wrr l) p = (weight_heap wrr p)\<lparr>non_empty_since := InfFuture\<rparr>
       \<and> weight_expiration_period (config wrr)
            \<le> Timestamp_minus (env_Now env) (last_update_time (weight_heap wrr p)))"
proof -
  obtain ws h n s where g: "GetWeights (env_Now env) (weight_expiration_period (config wrr))
      (blackout_period (config wrr)) (Picker_snapshot l) (weight_heap wrr) 0 0 = (ws, h, n, s)"
    using prod_cases4 by blast
  have "snd (Picker_new env wrr l) = h"
    using g by (simp add: Picker_new_def BuildSchedulerAndStartTimerLocked_def)
  with GetWeights_heap [OF g, of p] show ?thesis by simp
qed

lemma UpdateStateCountersLocked_endpoints:
  "UpdateStateCountersLocked old new l = Inr l1 \<Longrightarrow> endpoints l1 = endpoints l"
  by (auto simp: UpdateStateCountersLocked_def split: option.splits if_splits sum.splits)

lemma OnStateUpdate_cases:
  assumes "OnStateUpdate env this index old new status wrr = Inr (wrr', calls)"
  shows "index < length (endpoints (list_heap wrr this)) \<and> (\<exists>wrr2 calls1 calls3.
     calls = calls1 @ calls3
     \<and> calls1 = (if new = GRPC_CHANNEL_IDLE then [ExitIdleLocked index]
                 else if resets old new then
                   [Invoke_ResetNonEmptySince
                      (endpoint_weight (endpoints (list_heap wrr this) ! index))]
                 else [])
     \<and> weight_heap wrr2 =
         (if resets old new then
            (weight_heap wrr)
              (endpoint_weight (endpoints (list_heap wrr this) ! index) :=
                 ResetNonEmptySince
                   (weight_heap wrr (endpoint_weight (endpoints (list_heap wrr this) ! index))))
          else weight_heap wrr)
     \<and> config wrr2 = config wrr
     \<and> endpoint_list wrr2 = endpoint_list wrr
     \<and> latest_pending_endpoint_list wrr2 = latest_pending_endpoint_list wrr
     \<and> (\<forall>x. x \<noteq> this \<longrightarrow> list_heap wrr2 x = list_heap wrr x)
     \<and> endpoints (list_heap wrr2 this) = endpoints (list_heap wrr this)
     \<and> MaybeUpdateAggregatedConnectivityStateLocked env this status wrr2 = Inr (wrr', calls3))"
proof -
  have idx: "index < length (endpoints (list_heap wrr this))"
    using assms by (auto simp: OnStateUpdate_def split: if_splits)
  let ?wp = "endpoint_weight (endpoints (list_heap wrr this) ! index)"
  define wrr1 where "wrr1 = (if resets old new then
       wrr\<lparr>weight_heap := (weight_heap wrr)(?wp := ResetNonEmptySince (weight_heap wrr ?wp))\<rparr>
     else wrr)"
  define calls1 :: "'a call list" where "calls1 = (if new = GRPC_CHANNEL_IDLE then [ExitIdleLocked index]
                 else if resets old new then [Invoke_ResetNonEmptySince ?wp] else [])"
  let ?cnt = "if old = None \<or> old \<noteq> Some new then
                   (case UpdateStateCountersLocked old new (list_heap wrr1 this) of
                      Inl e \<Rightarrow> Inl e
                    | Inr l1 \<Rightarrow> Inr (wrr1\<lparr>list_heap := (list_heap wrr1)(this := l1)\<rparr>))
                 else Inr wrr1"
  have unf: "OnStateUpdate env this index old new status wrr =
     (case ?cnt of Inl e \<Rightarrow> Inl e
      | Inr wrr2 \<Rightarrow>
         (case MaybeUpdateAggregatedConnectivityStateLocked env this status wrr2 of
            Inl e \<Rightarrow> Inl e
          | Inr (wrr3, calls3) \<Rightarrow> Inr (wrr3, calls1 @ calls3)))"
    unfolding OnStateUpdate_def wrr1_def calls1_def resets_def Let_def using idx
    by (cases "new = GRPC_CHANNEL_IDLE"; cases "new = GRPC_CHANNEL_READY";
        cases "old = None"; cases "old = Some GRPC_CHANNEL_READY"; simp)
  obtain wrr2 where c: "?cnt = Inr wrr2"
    using assms unfolding unf by (cases ?cnt) simp_all
  obtain wrr3 calls3 where
    a: "MaybeUpdateAggregatedConnectivityStateLocked env this status wrr2 = Inr (wrr3, calls3)"
    using assms unfolding unf c
    by (cases "MaybeUpdateAggregatedConnectivityStateLocked env this status wrr2") auto
  have res: "wrr' = wrr3" "calls = calls1 @ calls3"
    using assms a unfolding unf c by simp_all
  have w2: "weight_heap wrr2 = weight_heap wrr1" "config wrr2 = config wrr1"
    "endpoint_list wrr2 = endpoint_list wrr1"
    "latest_pending_endpoint_list wrr2 = latest_pending_endpoint_list wrr1"
    "\<forall>x. x \<noteq> this \<longrightarrow> list_heap wrr2 x = list_heap wrr1 x"
    "endpoints (list_heap wrr2 this) = endpoints (list_heap wrr1 this)"
    using c UpdateStateCountersLocked_endpoints [of old new "list_heap wrr1 this"]
    by (auto split: if_splits sum.splits)
  show ?thesis
    apply (rule conjI [OF idx])
    apply (rule exI [of _ wrr2], rule exI [of _ calls1], rule exI [of _ calls3])
    using res a w2 by (simp add: wrr1_def calls1_def)
qed



lemma promotes_cong:
  assumes "num_ready (list_heap w1 a) = num_ready (list_heap w2 a)"
    "num_ready (list_heap w1 this) = num_ready (list_heap w2 this)"
    "num_transient_failure (list_heap w1 this) = num_transient_failure (list_heap w2 this)"
    "endpoints (list_heap w1 this) = endpoints (list_heap w2 this)"
  shows "promotes w1 a this = promotes w2 a this"
  using assms by (simp add: promotes_def AllEndpointsSeenInitialState_def EndpointList_size_def)

lemma Aggregated_no_Reset:
  "MaybeUpdateAggregatedConnectivityStateLocked env this status wrr = Inr (wrr', calls) \<Longrightarrow>
     \<forall>p. Invoke_ResetNonEmptySince p \<notin> set calls"
  by (drule Aggregated_cases) (auto simp: Let_def ReportTransientFailure_def split: if_splits)

text \<open>
  C5. A pending list (the latest one, distinct from the active list) that processes a
  state notification becomes the active list if and only if, on the counters after the
  notification, (a) the active list has no READY endpoint, or (b) the pending list has a
  READY endpoint and every endpoint of it has delivered its first notification, or (c)
  \<^verbatim>\<open>num_transient_failure_\<close> of the pending list equals its size. When none holds,
  both lists stay where they are and no state is published. The first part states this
  for the aggregation alone, the second for the whole of \<^verbatim>\<open>OnStateUpdate\<close>.
\<close>

theorem pending_list_promotion:
  assumes "latest_pending_endpoint_list wrr = Some this"
    and "endpoint_list wrr = Some a" and "a \<noteq> this"
  shows "(\<exists>wrr' calls.
      MaybeUpdateAggregatedConnectivityStateLocked env this status wrr = Inr (wrr', calls)
      \<and> (endpoint_list wrr' = Some this) = promotes wrr a this
      \<and> (promotes wrr a this \<longrightarrow> latest_pending_endpoint_list wrr' = None)
      \<and> (\<not> promotes wrr a this \<longrightarrow> wrr' = wrr \<and> calls = []))
    \<and> (\<forall>wrr' calls.
         OnStateUpdate env this index old new status wrr = Inr (wrr', calls) \<longrightarrow>
           (endpoint_list wrr' = Some this) = promotes wrr' a this
           \<and> (promotes wrr' a this \<longrightarrow> latest_pending_endpoint_list wrr' = None)
           \<and> (\<not> promotes wrr' a this \<longrightarrow>
                endpoint_list wrr' = Some a \<and> latest_pending_endpoint_list wrr' = Some this
                \<and> \<not> list_ex is_UpdateState calls))"
proof (intro conjI allI impI)
  show "\<exists>wrr' calls.
      MaybeUpdateAggregatedConnectivityStateLocked env this status wrr = Inr (wrr', calls)
      \<and> (endpoint_list wrr' = Some this) = promotes wrr a this
      \<and> (promotes wrr a this \<longrightarrow> latest_pending_endpoint_list wrr' = None)
      \<and> (\<not> promotes wrr a this \<longrightarrow> wrr' = wrr \<and> calls = [])"
    using Aggregated_pending [OF assms, of env status] by blast
next
  fix wrr' calls
  assume run: "OnStateUpdate env this index old new status wrr = Inr (wrr', calls)"
  from OnStateUpdate_cases [OF run] obtain wrr2 calls1 calls3 where
    cs: "calls = calls1 @ calls3"
    and c1: "calls1 = (if new = GRPC_CHANNEL_IDLE then [ExitIdleLocked index]
                 else if resets old new then
                   [Invoke_ResetNonEmptySince
                      (endpoint_weight (endpoints (list_heap wrr this) ! index))]
                 else [])"
    and sl: "endpoint_list wrr2 = endpoint_list wrr"
      "latest_pending_endpoint_list wrr2 = latest_pending_endpoint_list wrr"
    and ag: "MaybeUpdateAggregatedConnectivityStateLocked env this status wrr2 = Inr (wrr', calls3)"
    by blast
  have p2: "latest_pending_endpoint_list wrr2 = Some this" "endpoint_list wrr2 = Some a"
    using sl assms by simp_all
  from Aggregated_pending [OF p2 assms(3), of env status] ag
  have pr: "(endpoint_list wrr' = Some this) = promotes wrr2 a this"
    and pn: "promotes wrr2 a this \<longrightarrow> latest_pending_endpoint_list wrr' = None"
    and np: "\<not> promotes wrr2 a this \<longrightarrow> wrr' = wrr2 \<and> calls3 = []"
    and eqs: "num_ready (list_heap wrr' a) = num_ready (list_heap wrr2 a)"
      "num_ready (list_heap wrr' this) = num_ready (list_heap wrr2 this)"
      "num_transient_failure (list_heap wrr' this) = num_transient_failure (list_heap wrr2 this)"
      "endpoints (list_heap wrr' this) = endpoints (list_heap wrr2 this)"
    by auto
  have pp: "promotes wrr' a this = promotes wrr2 a this"
    using eqs by (rule promotes_cong)
  have nu: "\<not> list_ex is_UpdateState calls1"
    using c1 by simp
  show "(endpoint_list wrr' = Some this) = promotes wrr' a this"
    using pr pp by simp
  show "latest_pending_endpoint_list wrr' = None" if "promotes wrr' a this"
    using that pn pp by simp
  show "endpoint_list wrr' = Some a" if "\<not> promotes wrr' a this"
    using that np pp p2 by simp
  show "latest_pending_endpoint_list wrr' = Some this" if "\<not> promotes wrr' a this"
    using that np pp p2 by simp
  show "\<not> list_ex is_UpdateState calls" if "\<not> promotes wrr' a this"
    using that np pp nu cs by simp
qed

theorem pending_list_promotion_witness:
  "latest_pending_endpoint_list ex_wrr = Some 1 \<and> endpoint_list ex_wrr = Some 0
   \<and> (0::nat) \<noteq> 1
   \<and> (case OnStateUpdate ex_env 1 0 (Some GRPC_CHANNEL_CONNECTING) GRPC_CHANNEL_READY
              OkStatus ex_wrr of
         Inl e \<Rightarrow> False
       | Inr (w, c) \<Rightarrow>
           promotes w 0 1 \<and> endpoint_list w = Some 1
           \<and> latest_pending_endpoint_list w = None \<and> list_ex is_UpdateState c)
   \<and> latest_pending_endpoint_list ex_unseen = Some 1 \<and> endpoint_list ex_unseen = Some 0
   \<and> (case OnStateUpdate ex_env 1 0 (Some GRPC_CHANNEL_CONNECTING) GRPC_CHANNEL_READY
              OkStatus ex_unseen of
         Inl e \<Rightarrow> False
       | Inr (w, c) \<Rightarrow>
           \<not> promotes w 0 1 \<and> endpoint_list w = Some 0
           \<and> latest_pending_endpoint_list w = Some 1 \<and> \<not> list_ex is_UpdateState c)
   \<and> MaybeUpdateAggregatedConnectivityStateLocked ex_env 1 OkStatus ex_unseen
       = Inr (ex_unseen, [])"
proof -
  have p1: "latest_pending_endpoint_list ex_wrr = Some 1"
    and a1: "endpoint_list ex_wrr = Some 0"
    and p2: "latest_pending_endpoint_list ex_unseen = Some 1"
    and a2: "endpoint_list ex_unseen = Some 0"
    and ne: "(0::nat) \<noteq> 1"
    by (simp_all add: ex_defs)
  show ?thesis
    using p1 a1 p2 a2
      pending_list_promotion [OF p1 a1 ne, of ex_env OkStatus 0
        "Some GRPC_CHANNEL_CONNECTING" GRPC_CHANNEL_READY]
      pending_list_promotion [OF p2 a2 ne, of ex_env OkStatus 0
        "Some GRPC_CHANNEL_CONNECTING" GRPC_CHANNEL_READY]
    by (simp add: ex_defs run_defs promotes_def Let_def)
qed

subsection \<open>Restarting the blackout period\<close>

lemma Timestamp_minus_antimono:
  "t0 \<le> t \<Longrightarrow> Timestamp_minus now t \<le> Timestamp_minus now t0"
  by (cases now; cases t; cases t0) simp_all

lemma EndpointWeight_step_since:
  "t0 \<le> non_empty_since ew \<Longrightarrow> \<forall>t \<in> set (update_times [c]). t0 \<le> t \<Longrightarrow>
     t0 \<le> non_empty_since (EndpointWeight_step c ew)"
  by (cases c)
    (auto simp: MaybeUpdateWeight_def GetWeight_def ResetNonEmptySince_def Let_def)

lemma update_times_Cons:
  "set (update_times (c # cs)) = set (update_times [c]) \<union> set (update_times cs)"
  by (cases c) simp_all

lemma EndpointWeight_run_since:
  "t0 \<le> non_empty_since ew \<Longrightarrow> \<forall>t \<in> set (update_times cs). t0 \<le> t \<Longrightarrow>
     t0 \<le> non_empty_since (EndpointWeight_run cs ew)"
proof (induction cs arbitrary: ew)
  case Nil
  then show ?case by simp
next
  case (Cons c cs)
  have "t0 \<le> non_empty_since (EndpointWeight_step c ew)"
    using Cons.prems by (intro EndpointWeight_step_since) (auto simp: update_times_Cons [of c cs])
  moreover have "\<forall>t \<in> set (update_times cs). t0 \<le> t"
    using Cons.prems(2) by (auto simp: update_times_Cons [of c cs])
  ultimately show ?case using Cons.IH by simp
qed

lemma GetWeight_in_blackout:
  assumes "t0 \<le> non_empty_since ew" "Duration_Zero < blackout"
    "Timestamp_minus now t0 < blackout"
  shows "fst (GetWeight now expiration blackout n s ew) = Finite 0"
proof -
  have "Timestamp_minus now (non_empty_since ew) \<le> Timestamp_minus now t0"
    using assms(1) by (rule Timestamp_minus_antimono)
  then have "Timestamp_minus now (non_empty_since ew) < blackout"
    using assms(3) by (rule le_less_trans)
  then show ?thesis using assms(2) by (simp add: GetWeight_def)
qed



lemma Aggregated_heap:
  assumes "MaybeUpdateAggregatedConnectivityStateLocked env this status wrr = Inr (wrr', calls)"
  shows "weight_heap wrr' p = weight_heap wrr p
   \<or> (weight_heap wrr' p = (weight_heap wrr p)\<lparr>non_empty_since := InfFuture\<rparr>
       \<and> weight_expiration_period (config wrr)
            \<le> Timestamp_minus (env_Now env) (last_update_time (weight_heap wrr p)))"
  using Aggregated_cases [OF assms] Picker_new_heap [of env wrr "list_heap wrr this" p]
  by (auto simp: Let_def split: if_splits)

text \<open>
  C7, as stated, fails in two ways. On the initial notification of an endpoint the handler
  does not call \<^verbatim>\<open>ResetNonEmptySince\<close>, but the picker that the same notification
  builds (line 959) reads every weight through \<^verbatim>\<open>GetWeight\<close>, whose expiration
  branch (line 489) sets \<^verbatim>\<open>non_empty_since_\<close> to \<^verbatim>\<open>InfFuture\<close>: the first
  notification, READY, of an endpoint whose shared weight object expired long ago takes
  \<^verbatim>\<open>non_empty_since_\<close> from time 100 to \<^verbatim>\<open>InfFuture\<close>. And a
  \<^verbatim>\<open>MaybeUpdateWeight\<close> reads the clock (line 456) before it takes the mutex
  (line 458): with the second READY at time 1000, a report that read the clock at time
  999 and writes after the reset sets \<^verbatim>\<open>non_empty_since_\<close> to 999, and a
  \<^verbatim>\<open>GetWeight\<close> at time 1999 with a blackout period of 1000 ms, which is 999 ms
  after the second READY, returns the weight 2.
\<close>

theorem OnStateUpdate_restarts_blackout_counterexample:
  "(case OnStateUpdate ex_late_env 1 0 None GRPC_CHANNEL_READY OkStatus ex_first of
       Inl e \<Rightarrow> False
     | Inr (w, c) \<Rightarrow>
         non_empty_since (weight_heap ex_first 0) = Millis 100
         \<and> non_empty_since (weight_heap w 0) = InfFuture
         \<and> \<not> (non_empty_since (weight_heap w 0) = non_empty_since (weight_heap ex_first 0)))
   \<and> (case OnStateUpdate ex_env 1 0 (Some GRPC_CHANNEL_CONNECTING) GRPC_CHANNEL_READY
            OkStatus ex_wrr of
       Inl e \<Rightarrow> False
     | Inr (w, c) \<Rightarrow>
         Invoke_ResetNonEmptySince 0 \<in> set c
         \<and> env_Now ex_env = Millis 1000
         \<and> Duration_Zero < Milliseconds 1000
         \<and> Timestamp_minus (Millis 1999) (Millis 1000) < Milliseconds 1000
         \<and> \<not> Milliseconds 180000
               \<le> Timestamp_minus (Millis 1999)
                   (last_update_time
                     (EndpointWeight_run
                        [Call_MaybeUpdateWeight (Millis 999) (Finite 4) (Finite 2) (Finite 1)
                           (Finite 2)]
                        (weight_heap w 0)))
         \<and> fst (GetWeight (Millis 1999) (Milliseconds 180000) (Milliseconds 1000) 0 0
                 (EndpointWeight_run
                    [Call_MaybeUpdateWeight (Millis 999) (Finite 4) (Finite 2) (Finite 1)
                       (Finite 2)]
                    (weight_heap w 0))) = Finite 2
         \<and> \<not> (fst (GetWeight (Millis 1999) (Milliseconds 180000) (Milliseconds 1000) 0 0
                 (EndpointWeight_run
                    [Call_MaybeUpdateWeight (Millis 999) (Finite 4) (Finite 2) (Finite 1)
                       (Finite 2)]
                    (weight_heap w 0))) = Finite 0))"
  by (simp add: ex_defs run_defs Let_def MaybeUpdateWeight_def MaybeUpdateWeight_weight_def)

text \<open>
  C7, amended. A notification with new state READY for an endpoint whose recorded prior
  state is not READY invokes \<^verbatim>\<open>ResetNonEmptySince\<close> on the endpoint's weight, and
  after the handler \<^verbatim>\<open>non_empty_since_\<close> of that weight is \<^verbatim>\<open>InfFuture\<close>.
  Consequently, whatever calls follow on that weight, provided every
  \<^verbatim>\<open>MaybeUpdateWeight\<close> among them carries a clock reading not before a time
  \<open>t0\<close> (the second READY of a READY, CONNECTING, READY sequence), a
  \<^verbatim>\<open>GetWeight\<close> at a time \<open>now\<close> with \<open>now - t0\<close> below a positive blackout
  period returns 0. On the first notification of an endpoint (no prior state)
  \<^verbatim>\<open>ResetNonEmptySince\<close> is not invoked, and every weight that has not expired at
  the time of the notification is left as it was.
\<close>

theorem OnStateUpdate_restarts_blackout:
  "(\<forall>wrr' calls old.
      OnStateUpdate env this index (Some old) GRPC_CHANNEL_READY status wrr = Inr (wrr', calls)
      \<and> old \<noteq> GRPC_CHANNEL_READY \<longrightarrow>
        Invoke_ResetNonEmptySince (endpoint_weight (endpoints (list_heap wrr this) ! index))
          \<in> set calls
        \<and> non_empty_since
            (weight_heap wrr' (endpoint_weight (endpoints (list_heap wrr this) ! index)))
            = InfFuture
        \<and> (\<forall>cs t0 now expiration blackout n s.
              (\<forall>t \<in> set (update_times cs). t0 \<le> t)
              \<and> Duration_Zero < blackout \<and> Timestamp_minus now t0 < blackout \<longrightarrow>
              fst (GetWeight now expiration blackout n s
                    (EndpointWeight_run cs
                      (weight_heap wrr'
                        (endpoint_weight (endpoints (list_heap wrr this) ! index))))) = Finite 0))
   \<and> (\<forall>wrr' calls new.
      OnStateUpdate env this index None new status wrr = Inr (wrr', calls) \<longrightarrow>
        (\<forall>p. Invoke_ResetNonEmptySince p \<notin> set calls)
        \<and> (\<forall>p. \<not> weight_expiration_period (config wrr)
                    \<le> Timestamp_minus (env_Now env) (last_update_time (weight_heap wrr p)) \<longrightarrow>
               weight_heap wrr' p = weight_heap wrr p))"
proof -
  let ?wp = "endpoint_weight (endpoints (list_heap wrr this) ! index)"
  have part1: "Invoke_ResetNonEmptySince ?wp \<in> set calls
        \<and> non_empty_since (weight_heap wrr' ?wp) = InfFuture
        \<and> (\<forall>cs t0 now expiration blackout n s.
              (\<forall>t \<in> set (update_times cs). t0 \<le> t)
              \<and> Duration_Zero < blackout \<and> Timestamp_minus now t0 < blackout \<longrightarrow>
              fst (GetWeight now expiration blackout n s
                    (EndpointWeight_run cs (weight_heap wrr' ?wp))) = Finite 0)"
    if a: "OnStateUpdate env this index (Some old) GRPC_CHANNEL_READY status wrr
               = Inr (wrr', calls) \<and> old \<noteq> GRPC_CHANNEL_READY"
    for wrr' calls old
  proof -
    from a have r: "resets (Some old) GRPC_CHANNEL_READY" by (simp add: resets_def)
    from a OnStateUpdate_cases
      [of env this index "Some old" GRPC_CHANNEL_READY status wrr wrr' calls]
    obtain wrr2 calls1 calls3 where
      cs: "calls = calls1 @ calls3"
      and c1: "calls1 = [Invoke_ResetNonEmptySince ?wp]"
      and h2: "weight_heap wrr2
                 = (weight_heap wrr)(?wp := ResetNonEmptySince (weight_heap wrr ?wp))"
      and ag: "MaybeUpdateAggregatedConnectivityStateLocked env this status wrr2
                 = Inr (wrr', calls3)"
      using r by auto
    have called: "Invoke_ResetNonEmptySince ?wp \<in> set calls" using cs c1 by simp
    have "non_empty_since (weight_heap wrr2 ?wp) = InfFuture"
      using h2 by (simp add: ResetNonEmptySince_def)
    then have inf: "non_empty_since (weight_heap wrr' ?wp) = InfFuture"
      using Aggregated_heap [OF ag, of ?wp] by auto
    have later: "fst (GetWeight now expiration blackout n s
                    (EndpointWeight_run cs (weight_heap wrr' ?wp))) = Finite 0"
      if h: "(\<forall>t \<in> set (update_times cs). t0 \<le> t)
              \<and> Duration_Zero < blackout \<and> Timestamp_minus now t0 < blackout"
      for cs t0 now expiration blackout n s
    proof -
      have "t0 \<le> non_empty_since (weight_heap wrr' ?wp)" using inf by simp
      then have "t0 \<le> non_empty_since (EndpointWeight_run cs (weight_heap wrr' ?wp))"
        using h by (intro EndpointWeight_run_since) auto
      then show ?thesis
        using h by (intro GetWeight_in_blackout [of t0]) auto
    qed
    show ?thesis using called inf later by blast
  qed
  have part2: "(\<forall>p. Invoke_ResetNonEmptySince p \<notin> set calls)
        \<and> (\<forall>p. \<not> weight_expiration_period (config wrr)
                    \<le> Timestamp_minus (env_Now env) (last_update_time (weight_heap wrr p)) \<longrightarrow>
               weight_heap wrr' p = weight_heap wrr p)"
    if a: "OnStateUpdate env this index None new status wrr = Inr (wrr', calls)"
    for wrr' calls new
  proof -
    have nr: "\<not> resets None new" by (simp add: resets_def)
    from OnStateUpdate_cases [OF a] obtain wrr2 calls1 calls3 where
      cs: "calls = calls1 @ calls3"
      and c1: "calls1 = (if new = GRPC_CHANNEL_IDLE then [ExitIdleLocked index] else [])"
      and h2: "weight_heap wrr2 = weight_heap wrr"
      and cf: "config wrr2 = config wrr"
      and ag: "MaybeUpdateAggregatedConnectivityStateLocked env this status wrr2
                 = Inr (wrr', calls3)"
      using nr by auto
    have n1: "Invoke_ResetNonEmptySince p \<notin> set calls" for p
      using cs c1 Aggregated_no_Reset [OF ag] by auto
    have n2: "weight_heap wrr' p = weight_heap wrr p"
      if "\<not> weight_expiration_period (config wrr)
                    \<le> Timestamp_minus (env_Now env) (last_update_time (weight_heap wrr p))"
      for p
      using that Aggregated_heap [OF ag, of p] h2 cf by auto
    show ?thesis using n1 n2 by blast
  qed
  show ?thesis
    apply (rule conjI)
     apply (intro allI impI)
     apply (erule part1)
    apply (intro allI impI)
    apply (erule part2)
    done
qed

theorem OnStateUpdate_restarts_blackout_witness:
  "(case OnStateUpdate ex_env 1 0 (Some GRPC_CHANNEL_CONNECTING) GRPC_CHANNEL_READY
            OkStatus ex_wrr of
       Inl e \<Rightarrow> False
     | Inr (w, c) \<Rightarrow>
         Invoke_ResetNonEmptySince 0 \<in> set c
         \<and> non_empty_since (weight_heap w 0) = InfFuture
         \<and> EndpointWeight_run
               [Call_MaybeUpdateWeight (Millis 1500) (Finite 4) (Finite 2) (Finite 1) (Finite 2)]
               (weight_heap w 0)
             = \<lparr>weight = Finite 2, non_empty_since = Millis 1500,
                last_update_time = Millis 1500\<rparr>
         \<and> fst (GetWeight (Millis 2000) (Milliseconds 180000) (Milliseconds 10000) 0 0
                 (EndpointWeight_run
                    [Call_MaybeUpdateWeight (Millis 1500) (Finite 4) (Finite 2) (Finite 1)
                       (Finite 2)]
                    (weight_heap w 0))) = Finite 0)
   \<and> Millis 1000 \<le> Millis 1500
   \<and> Duration_Zero < Milliseconds 10000
   \<and> Timestamp_minus (Millis 2000) (Millis 1000) < Milliseconds 10000
   \<and> (case OnStateUpdate ex_env 1 1 None GRPC_CHANNEL_READY OkStatus ex_wrr of
         Inl e \<Rightarrow> False
       | Inr (w, c) \<Rightarrow>
           Invoke_ResetNonEmptySince 0 \<notin> set c \<and> Invoke_ResetNonEmptySince 1 \<notin> set c
           \<and> list_ex is_UpdateState c
           \<and> weight_heap w 0 = weight_heap ex_wrr 0 \<and> weight_heap w 1 = weight_heap ex_wrr 1)
   \<and> \<not> weight_expiration_period (config ex_wrr)
          \<le> Timestamp_minus (env_Now ex_env) (last_update_time (weight_heap ex_wrr 0))"
  using OnStateUpdate_restarts_blackout [of ex_env 1 0 OkStatus ex_wrr]
  by (simp add: ex_defs run_defs Let_def MaybeUpdateWeight_def MaybeUpdateWeight_weight_def)

subsection \<open>Resolver updates\<close>


lemma set_insert_not_Nil: "set_insert e xs \<noteq> []"
  by (cases xs) simp_all

lemma foldl_set_insert_not_Nil:
  "acc \<noteq> [] \<or> es \<noteq> [] \<Longrightarrow> foldl (\<lambda>acc e. set_insert e acc) acc es \<noteq> []"
  by (induction es arbitrary: acc) (simp_all add: set_insert_not_Nil)

lemma ordered_addresses_Nil_iff: "ordered_addresses es = [] \<longleftrightarrow> es = []"
  using foldl_set_insert_not_Nil [of "[]" es] by (auto simp: ordered_addresses_def)

lemma GetOrCreateWeight_frame:
  "GetOrCreateWeight env as wrr = (w, wrr1) \<Longrightarrow>
     list_alloc wrr1 = list_alloc wrr \<and> list_heap wrr1 = list_heap wrr
     \<and> endpoint_list wrr1 = endpoint_list wrr
     \<and> latest_pending_endpoint_list wrr1 = latest_pending_endpoint_list wrr
     \<and> config wrr1 = config wrr"
  by (auto simp: GetOrCreateWeight_def Let_def split: option.splits)

lemma WrrEndpoints_new_frame:
  "WrrEndpoints_new env es wrr = (eps, errs, wrr1) \<Longrightarrow>
     length eps = length es
     \<and> list_alloc wrr1 = list_alloc wrr \<and> list_heap wrr1 = list_heap wrr
     \<and> endpoint_list wrr1 = endpoint_list wrr
     \<and> latest_pending_endpoint_list wrr1 = latest_pending_endpoint_list wrr
     \<and> config wrr1 = config wrr"
proof (induction es arbitrary: wrr eps errs wrr1)
  case Nil
  then show ?case by simp
next
  case (Cons a es)
  obtain w wrra where g: "GetOrCreateWeight env (addresses a) wrr = (w, wrra)"
    by (cases "GetOrCreateWeight env (addresses a) wrr")
  obtain eps2 errs2 wrr2 where r: "WrrEndpoints_new env es wrra = (eps2, errs2, wrr2)"
    using prod_cases3 by blast
  have "eps = \<lparr>connectivity_state = None, picker = None, endpoint_weight = w\<rparr> # eps2"
    and "wrr1 = wrr2"
    using Cons.prems g r by (simp_all add: Let_def)
  then show ?case
    using Cons.IH [OF r] GetOrCreateWeight_frame [OF g] by simp
qed

lemma UpdateLocked_error:
  "args_addresses args = Inl st \<Longrightarrow>
     UpdateLocked env args wrr =
       (if endpoint_list wrr \<noteq> None then (st, wrr\<lparr>config := args_config args\<rparr>, [])
        else
          (st,
           wrr\<lparr>config := args_config args,
               list_heap := (list_heap wrr)
                 (list_alloc wrr :=
                    \<lparr>endpoints = [], resolution_note = args_resolution_note args,
                     num_ready = 0, num_connecting = 0, num_transient_failure = 0,
                     last_failure = OkStatus\<rparr>),
               list_alloc := Suc (list_alloc wrr),
               latest_pending_endpoint_list := None,
               endpoint_list := Some (list_alloc wrr)\<rparr>,
           [UpdateState GRPC_CHANNEL_TRANSIENT_FAILURE st (TransientFailurePicker st)]))"
  by (auto simp: UpdateLocked_def WrrEndpointList_new_def Let_def EndpointList_size_def
      ReportTransientFailure_def)

text \<open>
  C9. When the resolver delivers an error status and an active list exists,
  \<^verbatim>\<open>UpdateLocked\<close> returns that status, makes no call and leaves the policy as it
  was but for \<^verbatim>\<open>config_\<close>: the active list, the pending list and every list object
  are unchanged and no list is built. When no active list exists, it builds an empty
  list, makes it the active list and reports TRANSIENT_FAILURE with the resolver's
  status.
\<close>

theorem UpdateLocked_resolver_error:
  "(args_addresses args = Inl st \<and> endpoint_list wrr \<noteq> None \<longrightarrow>
      UpdateLocked env args wrr = (st, wrr\<lparr>config := args_config args\<rparr>, []))
   \<and> (args_addresses args = Inl st \<and> endpoint_list wrr = None \<longrightarrow>
      UpdateLocked env args wrr =
        (st,
         wrr\<lparr>config := args_config args,
             list_heap := (list_heap wrr)
               (list_alloc wrr :=
                  \<lparr>endpoints = [], resolution_note = args_resolution_note args, num_ready = 0,
                   num_connecting = 0, num_transient_failure = 0, last_failure = OkStatus\<rparr>),
             list_alloc := Suc (list_alloc wrr),
             latest_pending_endpoint_list := None,
             endpoint_list := Some (list_alloc wrr)\<rparr>,
         [UpdateState GRPC_CHANNEL_TRANSIENT_FAILURE st (TransientFailurePicker st)]))"
  using UpdateLocked_error [of args st env wrr] by auto

theorem UpdateLocked_resolver_error_witness:
  "args_addresses ex_error_args = Inl (Status kUnavailable ''dns'')
   \<and> endpoint_list ex_wrr \<noteq> None
   \<and> UpdateLocked ex_env ex_error_args ex_wrr = (Status kUnavailable ''dns'', ex_wrr, [])
   \<and> endpoint_list (ex_wrr\<lparr>endpoint_list := None, latest_pending_endpoint_list := None\<rparr>) = None
   \<and> UpdateLocked ex_env ex_error_args
        (ex_wrr\<lparr>endpoint_list := None, latest_pending_endpoint_list := None\<rparr>)
       = (Status kUnavailable ''dns'', ex_emptied,
          [UpdateState GRPC_CHANNEL_TRANSIENT_FAILURE (Status kUnavailable ''dns'')
             (TransientFailurePicker (Status kUnavailable ''dns''))])"
  using UpdateLocked_resolver_error [of ex_error_args "Status kUnavailable ''dns''" ex_wrr ex_env]
    UpdateLocked_resolver_error [of ex_error_args "Status kUnavailable ''dns''"
      "ex_wrr\<lparr>endpoint_list := None, latest_pending_endpoint_list := None\<rparr>" ex_env]
  by (simp add: ex_defs OkStatus_def)

text \<open>
  C6. An \<^verbatim>\<open>UpdateLocked\<close> call that builds a list (it is not the early return on
  a resolver error with an active list) and whose new list, at the address taken for it,
  is empty: the list is the active list on return and no list is pending;
  TRANSIENT_FAILURE is reported with the status \<^verbatim>\<open>UNAVAILABLE: empty address list\<close>
  when the resolver delivered addresses (and then it delivered none), or with the
  resolver's status otherwise; and that status is returned.
\<close>

theorem UpdateLocked_empty_list:
  assumes "isl (args_addresses args) \<longrightarrow> endpoint_list wrr = None"
    and "UpdateLocked env args wrr = (status, wrr', calls)"
    and "EndpointList_size (list_heap wrr' (list_alloc wrr)) = 0"
  shows "endpoint_list wrr' = Some (list_alloc wrr)
     \<and> latest_pending_endpoint_list wrr' = None
     \<and> status = (case args_addresses args of
                   Inl st \<Rightarrow> st
                 | Inr es \<Rightarrow> UnavailableError ''empty address list'')
     \<and> calls = [UpdateState GRPC_CHANNEL_TRANSIENT_FAILURE status (TransientFailurePicker status)]
     \<and> (case args_addresses args of Inl st \<Rightarrow> True | Inr es \<Rightarrow> es = [])"
proof (cases "args_addresses args")
  case (Inl st)
  then have "endpoint_list wrr = None" using assms(1) by simp
  with Inl assms(2) UpdateLocked_error [of args st env wrr]
  show ?thesis by auto
next
  case (Inr es)
  let ?wrr = "wrr\<lparr>config := args_config args\<rparr>"
  obtain eps errs wrr1 where
    n: "WrrEndpoints_new env (ordered_addresses es) ?wrr = (eps, errs, wrr1)"
    using prod_cases3 by blast
  note f = WrrEndpoints_new_frame [OF n]
  have ptr: "list_alloc wrr1 = list_alloc wrr" using f by simp
  show ?thesis
  proof (cases "eps = []")
    case True
    then have "es = []" using f ordered_addresses_Nil_iff [of es] by simp
    then show ?thesis using assms(2) Inr n True ptr
      by (auto simp: UpdateLocked_def WrrEndpointList_new_def Let_def EndpointList_size_def
          ReportTransientFailure_def)
  next
    case False
    then have "EndpointList_size (list_heap wrr' (list_alloc wrr)) \<noteq> 0"
      using assms(2) Inr n ptr
      by (auto simp: UpdateLocked_def WrrEndpointList_new_def Let_def EndpointList_size_def
          split: if_splits)
    then show ?thesis using assms(3) by simp
  qed
qed

theorem UpdateLocked_empty_list_witness:
  "\<not> isl (args_addresses ex_empty_args)
   \<and> UpdateLocked ex_env ex_empty_args ex_wrr
       = (UnavailableError ''empty address list'', ex_emptied,
          [UpdateState GRPC_CHANNEL_TRANSIENT_FAILURE (UnavailableError ''empty address list'')
             (TransientFailurePicker (UnavailableError ''empty address list''))])
   \<and> EndpointList_size (list_heap ex_emptied (list_alloc ex_wrr)) = 0
   \<and> endpoint_list ex_emptied = Some (list_alloc ex_wrr)
   \<and> latest_pending_endpoint_list ex_emptied = None"
proof -
  have h: "isl (args_addresses ex_empty_args) \<longrightarrow> endpoint_list ex_wrr = None"
    by (simp add: ex_defs)
  have e: "UpdateLocked ex_env ex_empty_args ex_wrr
       = (UnavailableError ''empty address list'', ex_emptied,
          [UpdateState GRPC_CHANNEL_TRANSIENT_FAILURE (UnavailableError ''empty address list'')
             (TransientFailurePicker (UnavailableError ''empty address list''))])"
    by (simp add: ex_defs UpdateLocked_def WrrEndpointList_new_def ordered_addresses_def
        EndpointList_size_def ReportTransientFailure_def OkStatus_def Let_def)
  have z: "EndpointList_size (list_heap ex_emptied (list_alloc ex_wrr)) = 0"
    by (simp add: ex_defs EndpointList_size_def)
  show ?thesis
    using e z UpdateLocked_empty_list [OF h e z]
    by (simp add: ex_defs)
qed

end
